theory Spec2Isabelle
  imports Main "HOL-Library.Word"
begin

unbundle bit_operations_syntax

chapter \<open>NFC reader firmware: card validation and the PN5180 driver\<close>

text \<open>
  Two programs of the repository are embedded here.
  \<^item> The Arduino sketch: \<open>validate4ByteUID\<close>, \<open>validate7ByteUID\<close>,
    \<open>validate10ByteUID\<close>, \<open>readCard\<close>, the \<open>MODE_NFC\<close> branch of \<open>loop\<close> and
    \<open>updateDisplay\<close>.
  \<^item> The ESP-IDF driver: the bus transport of \<open>pn5180_spi.c\<close>, the callback setters of
    \<open>pn5180.c\<close> and the state machine (\<open>pn5180_state_scanning\<close>,
    \<open>pn5180_state_transmitting\<close>, the scan commands).
  C integers are words of their width; \<open>int8_t\<close> is an \<open>8 word\<close> read with \<open>sint\<close>.
\<close>

type_synonym byte = "8 word"

section \<open>The sketch: UID validators\<close>

text \<open>
  A \<open>uint8_t *uid\<close> argument is the list of bytes that memory holds from the pointer on;
  \<open>uid[i]\<close> is \<open>uid ! i\<close>. The C is only defined when the list covers the indices read.

  The validators all use one loop shape:
  \<^verbatim>\<open>bool all = true;
for (int byteIndex = lo; byteIndex < hi; byteIndex++) {
    if (uid[byteIndex] != v) { all = false; break; }
}\<close>
  \<open>all_bytes_loop uid v i hi\<close> is the value of the flag after the loop started at index
  \<open>i\<close>.
\<close>

function all_bytes_loop :: "byte list \<Rightarrow> byte \<Rightarrow> nat \<Rightarrow> nat \<Rightarrow> bool" where
  "all_bytes_loop uid v byteIndex hi =
     (if byteIndex < hi
      then (if uid ! byteIndex \<noteq> v then False
            else all_bytes_loop uid v (Suc byteIndex) hi)
      else True)"
  by pat_completeness auto
termination
  by (relation "measure (\<lambda>(uid, v, byteIndex, hi). hi - byteIndex)") auto

declare all_bytes_loop.simps [simp del]

definition validate4ByteUID :: "byte list \<Rightarrow> bool" where
  "validate4ByteUID uid =
     (if uid ! 0 = 0x00 \<or> uid ! 0 = 0x88 then False
      else if all_bytes_loop uid 0x00 0 4 then False
      else if all_bytes_loop uid 0xFF 0 4 then False
      else True)"

definition validate7ByteUID :: "byte list \<Rightarrow> bool" where
  "validate7ByteUID uid =
     (if uid ! 3 \<noteq> 0x88 then False
      else if all_bytes_loop uid 0x00 4 7 then False
      else if all_bytes_loop uid 0xFF 4 7 then False
      else if uid ! 0 = 0x00 then False
      else True)"

definition validate10ByteUID :: "byte list \<Rightarrow> bool" where
  "validate10ByteUID uid =
     (if all_bytes_loop uid 0x00 0 10 then False
      else if all_bytes_loop uid 0xFF 0 10 then False
      else True)"

section \<open>The sketch: readCard\<close>

text \<open>
  \<open>nfc.activateTypeA(responseBuffer, 0)\<close> belongs to the PN5180 Arduino library, which is
  not part of the repository: it is the parameter \<open>activateTypeA\<close>, a function from the
  buffer it is handed to the \<open>int8_t\<close> it returns and the buffer it leaves.

  \<open>responseBuffer\<close> has 10 bytes and the UID starts at index 3, so for a length of 10 the
  code reads \<open>responseBuffer[10 .. 12]\<close>, the three bytes that follow the array on the
  stack. The parameter \<open>stackAfter\<close> is what memory holds there; \<open>readCard\<close> indexes
  \<open>responseBuffer @ stackAfter\<close>.
\<close>

definition isValidSAK :: "byte \<Rightarrow> bool" where
  "isValidSAK sakValue =
     (sakValue = 0x00 \<or> sakValue = 0x08 \<or> sakValue = 0x09 \<or> sakValue = 0x10 \<or>
      sakValue = 0x11 \<or> sakValue = 0x18 \<or> sakValue = 0x20 \<or> sakValue = 0x28 \<or>
      sakValue = 0x88 \<or> sakValue = 0x89)"

text \<open>
  \<^verbatim>\<open>for (int byteIndex = 0; byteIndex < n; byteIndex++)
    uidBuffer[byteIndex] = responseBuffer[3 + byteIndex];\<close>
\<close>

function copy_uid_loop :: "byte list \<Rightarrow> byte list \<Rightarrow> nat \<Rightarrow> nat \<Rightarrow> byte list" where
  "copy_uid_loop mem uidBuffer byteIndex n =
     (if byteIndex < n
      then copy_uid_loop mem (uidBuffer[byteIndex := mem ! (3 + byteIndex)]) (Suc byteIndex) n
      else uidBuffer)"
  by pat_completeness auto
termination
  by (relation "measure (\<lambda>(mem, uidBuffer, byteIndex, n). n - byteIndex)") auto

declare copy_uid_loop.simps [simp del]

definition atqa_of :: "byte list \<Rightarrow> 16 word" where
  "atqa_of mem = push_bit 8 (ucast (mem ! 1)) OR ucast (mem ! 0)"

text \<open>The result is the pair of the returned \<open>int8_t\<close> and the caller's \<open>uidBuffer\<close>.\<close>

definition readCard ::
  "(byte list \<Rightarrow> 8 word \<times> byte list) \<Rightarrow> byte list \<Rightarrow> byte list \<Rightarrow> 8 word \<times> byte list"
where
  "readCard activateTypeA stackAfter uidBuffer =
     (let (rawResponseLength, responseBuffer) = activateTypeA (replicate 10 0xFF);
          mem = responseBuffer @ stackAfter
      in if sint rawResponseLength \<le> 0 then (rawResponseLength, uidBuffer)
         else if rawResponseLength \<noteq> 4 \<and> rawResponseLength \<noteq> 7 \<and> rawResponseLength \<noteq> 10
              then (- 3, uidBuffer)
         else if atqa_of mem = 0x0000 \<or> atqa_of mem = 0xFFFF then (- 3, uidBuffer)
         else if \<not> isValidSAK (mem ! 2) then (- 3, uidBuffer)
         else if rawResponseLength = 4 then
           (if \<not> validate4ByteUID (drop 3 mem) then (- 3, uidBuffer)
            else (4, copy_uid_loop mem uidBuffer 0 4))
         else if rawResponseLength = 7 then
           (if \<not> validate7ByteUID (drop 3 mem) then (- 3, uidBuffer)
            else (7, copy_uid_loop mem uidBuffer 0 7))
         else if rawResponseLength = 10 then
           (if \<not> validate10ByteUID (drop 3 mem) then (- 3, uidBuffer)
            else (10, copy_uid_loop mem uidBuffer 0 10))
         else (- 3, uidBuffer))"

section \<open>The sketch: the NFC branch of loop and updateDisplay\<close>

datatype SystemMode = MODE_NFC | MODE_WIFI

datatype WifiSubMode = WIFI_SUB_NONE | WIFI_SUB_SCAN | WIFI_SUB_MANUAL

text \<open>The screens of the e-paper display, one constructor per drawing function.\<close>

datatype screen =
    ShowUIDSmall string
  | NoCardScreen
  | WifiMainMenu
  | ScanWifiScreen
  | ManualConnectScreen

text \<open>
  The globals of the sketch that the NFC branch and \<open>updateDisplay\<close> touch, with two
  traces for the effects: the screens drawn and the number of \<open>nfc.reset()\<close> calls.
  Serial output and delays are left out.
\<close>

record sketch =
  currentMode :: SystemMode
  lastDisplayedMode :: SystemMode
  currentWifiSubMode :: WifiSubMode
  lastWifiSubMode :: WifiSubMode
  displayUpdateRequired :: bool
  cardDetected :: bool
  lastUID :: string
  drawn :: "screen list"
  nfcResets :: nat

definition hex_digit :: "nat \<Rightarrow> char" where
  "hex_digit d = (''0123456789ABCDEF'') ! d"

text \<open>
  \<open>if (b < 0x10) newUID += "0"; newUID += String(b, HEX);\<close> followed by
  \<open>toUpperCase()\<close>: always two upper-case digits.
\<close>

definition hex_byte :: "byte \<Rightarrow> string" where
  "hex_byte b = [hex_digit (unat b div 16), hex_digit (unat b mod 16)]"

function uid_string_loop :: "byte list \<Rightarrow> nat \<Rightarrow> nat \<Rightarrow> string \<Rightarrow> string" where
  "uid_string_loop uidBuffer byteIndex uidLength newUID =
     (if byteIndex < uidLength
      then uid_string_loop uidBuffer (Suc byteIndex) uidLength
             (newUID @ hex_byte (uidBuffer ! byteIndex)
                     @ (if byteIndex < uidLength - 1 then '' '' else ''''))
      else newUID)"
  by pat_completeness auto
termination
  by (relation "measure (\<lambda>(uidBuffer, byteIndex, uidLength, newUID). uidLength - byteIndex)") auto

declare uid_string_loop.simps [simp del]

definition nfc_mode_step ::
  "(byte list \<Rightarrow> 8 word \<times> byte list) \<Rightarrow> byte list \<Rightarrow> sketch \<Rightarrow> sketch"
where
  "nfc_mode_step activateTypeA stackAfter s =
     (let (uidLength, uidBuffer) = readCard activateTypeA stackAfter (replicate 10 0)
      in if 0 < sint uidLength then
           (let newUID = uid_string_loop uidBuffer 0 (nat (sint uidLength)) ''''
            in if \<not> cardDetected s \<or> newUID \<noteq> lastUID s
               then s\<lparr>cardDetected := True, lastUID := newUID, displayUpdateRequired := True\<rparr>
               else s)
         else if sint uidLength < 0 then
           (let s1 = (if uidLength = - 2 \<or> uidLength = - 3
                      then s\<lparr>nfcResets := Suc (nfcResets s)\<rparr> else s)
            in if cardDetected s1
               then s1\<lparr>cardDetected := False, displayUpdateRequired := True\<rparr>
               else s1)
         else
           (if cardDetected s
            then s\<lparr>cardDetected := False, lastUID := '''', displayUpdateRequired := True\<rparr>
            else s))"

definition updateDisplay :: "sketch \<Rightarrow> sketch" where
  "updateDisplay s =
     (if \<not> displayUpdateRequired s \<and> currentMode s = lastDisplayedMode s
           \<and> currentWifiSubMode s = lastWifiSubMode s
      then s
      else
        (let scr = (case currentMode s of
                      MODE_NFC \<Rightarrow> (if cardDetected s then ShowUIDSmall (lastUID s)
                                    else NoCardScreen)
                    | MODE_WIFI \<Rightarrow> (case currentWifiSubMode s of
                                       WIFI_SUB_NONE \<Rightarrow> WifiMainMenu
                                     | WIFI_SUB_SCAN \<Rightarrow> ScanWifiScreen
                                     | WIFI_SUB_MANUAL \<Rightarrow> ManualConnectScreen))
         in s\<lparr>drawn := drawn s @ [scr],
              displayUpdateRequired := False,
              lastDisplayedMode := currentMode s,
              lastWifiSubMode := currentWifiSubMode s\<rparr>))"

text \<open>One pass of \<open>loop()\<close> in NFC mode, after the button events: the \<open>MODE_NFC\<close> case
  and the call of \<open>updateDisplay\<close>.\<close>

definition loop_nfc :: "(byte list \<Rightarrow> 8 word \<times> byte list) \<Rightarrow> byte list \<Rightarrow> sketch \<Rightarrow> sketch" where
  "loop_nfc activateTypeA stackAfter s = updateDisplay (nfc_mode_step activateTypeA stackAfter s)"


section \<open>The driver: types\<close>

datatype pn5180_error_t =
    PN5180_OK
  | PN5180_ERR_INVALID_ARG
  | PN5180_ERR_TIMEOUT
  | PN5180_ERR_CRC
  | PN5180_ERR_AUTH
  | PN5180_ERR_PROTOCOL
  | PN5180_ERR_BUFFER
  | PN5180_ERR_SPI
  | PN5180_ERR_NO_TAG
  | PN5180_ERR_MULTIPLE_TAGS
  | PN5180_ERR_HARDWARE
  | PN5180_ERR_NOT_INIT
  | PN5180_ERR_BUSY
  | PN5180_ERR_RF_FIELD
  | PN5180_ERR_EEPROM
  | PN5180_ERR_UNSUPPORTED

text \<open>The values of \<open>esp_err_t\<close> that the transport tells apart.\<close>

datatype esp_err_t = ESP_OK | ESP_ERR_TIMEOUT | ESP_FAIL

datatype pn5180_device_state_t =
    DEVICE_STATE_UNINITIALIZED
  | DEVICE_STATE_RESETTING
  | DEVICE_STATE_IDLE
  | DEVICE_STATE_CONFIGURING
  | DEVICE_STATE_SCANNING
  | DEVICE_STATE_TRANSMITTING
  | DEVICE_STATE_RECEIVING
  | DEVICE_STATE_PROCESSING
  | DEVICE_STATE_ERROR
  | DEVICE_STATE_SLEEP
  | DEVICE_STATE_WAKING_UP

text \<open>
  \<open>pn5180_protocol_t\<close>: the driver keeps the protocol in the \<open>uint8_t\<close> field
  \<open>current_protocol_index\<close>, so the enumerators are bytes.
\<close>

definition PN5180_PROTOCOL_ISO14443A :: byte where "PN5180_PROTOCOL_ISO14443A = 0"
definition PN5180_PROTOCOL_ISO14443B :: byte where "PN5180_PROTOCOL_ISO14443B = 1"
definition PN5180_PROTOCOL_ISO15693 :: byte where "PN5180_PROTOCOL_ISO15693 = 2"
definition PN5180_PROTOCOL_NFCIP1 :: byte where "PN5180_PROTOCOL_NFCIP1 = 3"
definition PN5180_PROTOCOL_FELICA :: byte where "PN5180_PROTOCOL_FELICA = 4"
definition PN5180_PROTOCOL_COUNT :: byte where "PN5180_PROTOCOL_COUNT = 5"

text \<open>The fields of \<open>pn5180_rf_config_t\<close> that the modelled functions read.\<close>

record pn5180_rf_config_t =
  rx_gain :: byte
  tx_power :: byte
  modulation_depth :: byte
  iq_threshold :: byte

text \<open>
  \<open>struct pn5180_dev_t\<close>. Pointers are addresses, \<open>0\<close> for \<open>NULL\<close>: the SPI handle, the
  three callbacks and the user data. Pins, mutex and queue handles, the two 1 KiB
  buffers and the EEPROM versions play no part in the functions below and are left out.
\<close>

record pn5180_dev_t =
  spi_device :: nat
  state :: pn5180_device_state_t
  state_timestamp :: "32 word"
  error_count :: byte
  rf_config :: pn5180_rf_config_t
  scanning_enabled :: bool
  enabled_protocols :: byte
  current_protocol_index :: byte
  last_scan_time :: "32 word"
  card_callback :: nat
  error_callback :: nat
  log_callback :: nat
  callback_user_data :: nat
  tx_length :: "16 word"
  rx_length :: "16 word"
  total_scans :: "32 word"
  cards_detected :: "32 word"
  busy_wait_start_time :: "32 word"

section \<open>The driver: configuration and register constants\<close>

text \<open>
  The \<open>CONFIG_PN5180_...\<close> values are the defaults of the configuration header (each is
  defined under \<open>#ifndef\<close>); the register addresses and bits are those of
  \<open>pn5180_registers.h\<close>.
\<close>

definition CONFIG_PN5180_SPI_TIMEOUT_MS :: "32 word" where "CONFIG_PN5180_SPI_TIMEOUT_MS = 100"
definition CONFIG_PN5180_BUSY_TIMEOUT_MS :: "32 word" where "CONFIG_PN5180_BUSY_TIMEOUT_MS = 100"
definition CONFIG_PN5180_DETECT_TIMEOUT_14443A_MS :: "32 word" where
  "CONFIG_PN5180_DETECT_TIMEOUT_14443A_MS = 2"
definition CONFIG_PN5180_DETECT_TIMEOUT_14443B_MS :: "32 word" where
  "CONFIG_PN5180_DETECT_TIMEOUT_14443B_MS = 2"
definition CONFIG_PN5180_DETECT_TIMEOUT_15693_MS :: "32 word" where
  "CONFIG_PN5180_DETECT_TIMEOUT_15693_MS = 5"
definition CONFIG_PN5180_SCAN_CYCLE_DELAY_MS :: "32 word" where
  "CONFIG_PN5180_SCAN_CYCLE_DELAY_MS = 1"
definition CONFIG_PN5180_TX_BUFFER_SIZE :: nat where "CONFIG_PN5180_TX_BUFFER_SIZE = 1024"
definition CONFIG_PN5180_RX_BUFFER_SIZE :: nat where "CONFIG_PN5180_RX_BUFFER_SIZE = 1024"
definition CONFIG_PN5180_DEBUG_LEVEL :: nat where "CONFIG_PN5180_DEBUG_LEVEL = 2"

definition PN5180_REG_IRQ_STATUS :: byte where "PN5180_REG_IRQ_STATUS = 0x02"
definition PN5180_REG_RF_CONTROL :: byte where "PN5180_REG_RF_CONTROL = 0x05"
definition PN5180_REG_RX_CONF1 :: byte where "PN5180_REG_RX_CONF1 = 0x1A"
definition PN5180_REG_RX_CONF3 :: byte where "PN5180_REG_RX_CONF3 = 0x1C"
definition PN5180_REG_TX_CONF1 :: byte where "PN5180_REG_TX_CONF1 = 0x1F"
definition PN5180_REG_ISO14443A_TX_DRIVER :: byte where "PN5180_REG_ISO14443A_TX_DRIVER = 0x2C"
definition PN5180_REG_ISO15693_TX_DRIVER :: byte where "PN5180_REG_ISO15693_TX_DRIVER = 0x2E"
definition PN5180_REG_TX_DATA :: byte where "PN5180_REG_TX_DATA = 0x40"
definition PN5180_REG_RX_DATA :: byte where "PN5180_REG_RX_DATA = 0x41"
definition PN5180_REG_TX_LENGTH_LSB :: byte where "PN5180_REG_TX_LENGTH_LSB = 0x42"
definition PN5180_REG_TX_LENGTH_MSB :: byte where "PN5180_REG_TX_LENGTH_MSB = 0x43"

definition PN5180_IRQ_STATUS_TX_DONE :: "32 word" where "PN5180_IRQ_STATUS_TX_DONE = push_bit 1 1"
definition PN5180_IRQ_STATUS_TX_ERROR :: "32 word" where "PN5180_IRQ_STATUS_TX_ERROR = push_bit 4 1"
definition PN5180_RF_CONTROL_FIELD_ON :: "32 word" where "PN5180_RF_CONTROL_FIELD_ON = push_bit 7 1"
definition PN5180_SPI_WRITE_MASK :: byte where "PN5180_SPI_WRITE_MASK = 0x80"

section \<open>The driver: the simulated board\<close>

text \<open>
  What the driver reaches through ESP-IDF and FreeRTOS is a record of the board:
  \<^item> \<open>tick_ms\<close>: the value \<open>pn5180_get_tick_ms()\<close> returns; only \<open>vTaskDelay\<close> moves it, and
    \<open>vTaskDelay(pdMS_TO_TICKS(n))\<close> moves it by \<open>n\<close> (a 1 kHz tick);
  \<^item> \<open>busy_pin t\<close>: the level of the BUSY line at time \<open>t\<close> (\<open>True\<close> for 1);
  \<^item> \<open>mutex_free\<close>: whether \<open>xSemaphoreTake(spi_mutex, 100 ms)\<close> gets the bus lock;
  \<^item> \<open>transmit_result\<close>: what \<open>spi_device_transmit\<close> returns;
  \<^item> \<open>miso\<close>: the bytes the chip will shift out, used up by receive transfers (zeros
    once it is empty); \<open>mosi\<close>: the frames the driver has sent;
  \<^item> \<open>callbacks\<close>: the calls made through the handle's callback pointers.
  Console logging (\<open>ESP_LOGx\<close>) is left out.
\<close>

datatype callback_call =
    CardCallback nat nat
  | LogCallback nat nat

record board =
  tick_ms :: "32 word"
  busy_pin :: "32 word \<Rightarrow> bool"
  mutex_free :: bool
  transmit_result :: esp_err_t
  miso :: "byte list"
  mosi :: "byte list list"
  callbacks :: "callback_call list"

definition pn5180_get_tick_ms :: "board \<Rightarrow> 32 word" where
  "pn5180_get_tick_ms b = tick_ms b"

definition vTaskDelay_ms :: "32 word \<Rightarrow> board \<Rightarrow> board" where
  "vTaskDelay_ms n b = b\<lparr>tick_ms := tick_ms b + n\<rparr>"

definition pn5180_is_busy_active :: "board \<Rightarrow> bool" where
  "pn5180_is_busy_active b = busy_pin b (tick_ms b)"

text \<open>
  \<open>pn5180_log_internal\<close>: with a log callback set, the message goes to it together with
  \<open>dev->callback_user_data\<close>; the second component of a call is that user data.
\<close>

definition pn5180_log_internal :: "pn5180_dev_t \<Rightarrow> nat \<Rightarrow> board \<Rightarrow> board" where
  "pn5180_log_internal dev level b =
     (if level > CONFIG_PN5180_DEBUG_LEVEL then b
      else if log_callback dev \<noteq> 0
           then b\<lparr>callbacks := callbacks b @ [LogCallback (log_callback dev) (callback_user_data dev)]\<rparr>
           else b)"

text \<open>
  The call of the card callback in \<open>pn5180_state_processing\<close>:
  \<^verbatim>\<open>if (dev->card_callback) dev->card_callback(&card_info, dev->callback_user_data);\<close>
\<close>

definition card_callback_call :: "pn5180_dev_t \<Rightarrow> board \<Rightarrow> board" where
  "card_callback_call dev b =
     (if card_callback dev \<noteq> 0
      then b\<lparr>callbacks := callbacks b @ [CardCallback (card_callback dev) (callback_user_data dev)]\<rparr>
      else b)"

section \<open>The driver: callback setters (pn5180.c)\<close>

definition pn5180_set_card_callback :: "pn5180_dev_t \<Rightarrow> nat \<Rightarrow> nat \<Rightarrow> pn5180_dev_t" where
  "pn5180_set_card_callback dev callback user_data =
     dev\<lparr>card_callback := callback, callback_user_data := user_data\<rparr>"

definition pn5180_set_error_callback :: "pn5180_dev_t \<Rightarrow> nat \<Rightarrow> nat \<Rightarrow> pn5180_dev_t" where
  "pn5180_set_error_callback dev callback user_data =
     dev\<lparr>error_callback := callback, callback_user_data := user_data\<rparr>"

definition pn5180_set_log_callback :: "pn5180_dev_t \<Rightarrow> nat \<Rightarrow> nat \<Rightarrow> pn5180_dev_t" where
  "pn5180_set_log_callback dev callback user_data =
     dev\<lparr>log_callback := callback, callback_user_data := user_data\<rparr>"

text \<open>A call of one of the three setters, and a sequence of such calls.\<close>

datatype setter_call =
    SetCard nat nat
  | SetError nat nat
  | SetLog nat nat

fun setter_user_data :: "setter_call \<Rightarrow> nat" where
  "setter_user_data (SetCard callback user_data) = user_data"
| "setter_user_data (SetError callback user_data) = user_data"
| "setter_user_data (SetLog callback user_data) = user_data"

fun run_setter :: "pn5180_dev_t \<Rightarrow> setter_call \<Rightarrow> pn5180_dev_t" where
  "run_setter dev (SetCard callback user_data) = pn5180_set_card_callback dev callback user_data"
| "run_setter dev (SetError callback user_data) = pn5180_set_error_callback dev callback user_data"
| "run_setter dev (SetLog callback user_data) = pn5180_set_log_callback dev callback user_data"

fun run_setters :: "pn5180_dev_t \<Rightarrow> setter_call list \<Rightarrow> pn5180_dev_t" where
  "run_setters dev [] = dev"
| "run_setters dev (c # cs) = run_setters (run_setter dev c) cs"


section \<open>The driver: bus transport (pn5180_spi.c)\<close>

text \<open>
  Every function that touches the bus returns an \<open>option\<close>: \<open>None\<close> means that the C
  function does not return. The only loop that can run forever is the wait for BUSY.

  \<^verbatim>\<open>while (pn5180_is_busy_active(dev)) {
    if (pn5180_get_tick_ms() - start_time > timeout_ms) {
        pn5180_log_internal(dev, 2, "BUSY timeout after %lu ms", timeout_ms);
        return PN5180_ERR_TIMEOUT;
    }
    vTaskDelay(pdMS_TO_TICKS(1));
}
return PN5180_OK;\<close>
\<close>

partial_function (option) wait_busy_loop ::
  "pn5180_dev_t \<Rightarrow> 32 word \<Rightarrow> 32 word \<Rightarrow> board \<Rightarrow> (pn5180_error_t \<times> board) option"
where
  "wait_busy_loop dev start_time timeout_ms b =
     (if pn5180_is_busy_active b
      then (if pn5180_get_tick_ms b - start_time > timeout_ms
            then Some (PN5180_ERR_TIMEOUT, pn5180_log_internal dev 2 b)
            else wait_busy_loop dev start_time timeout_ms (vTaskDelay_ms 1 b))
      else Some (PN5180_OK, b))"

definition pn5180_wait_busy ::
  "pn5180_dev_t \<Rightarrow> 32 word \<Rightarrow> board \<Rightarrow> (pn5180_error_t \<times> board) option"
where
  "pn5180_wait_busy dev timeout_ms b = wait_busy_loop dev (pn5180_get_tick_ms b) timeout_ms b"

text \<open>
  A \<open>spi_transaction_t\<close> either sends a frame or receives a number of bytes.
  \<open>spi_device_transmit\<close> is the ESP-IDF call: on \<open>ESP_OK\<close> a sent frame is appended to
  \<open>mosi\<close> and a receive takes its bytes from \<open>miso\<close>.
\<close>

datatype spi_transaction_t = Tx "byte list" | Rx nat

fun spi_device_transmit :: "board \<Rightarrow> spi_transaction_t \<Rightarrow> esp_err_t \<times> byte list \<times> board" where
  "spi_device_transmit b (Tx frame) =
     (if transmit_result b = ESP_OK then (ESP_OK, [], b\<lparr>mosi := mosi b @ [frame]\<rparr>)
      else (transmit_result b, [], b))"
| "spi_device_transmit b (Rx n) =
     (if transmit_result b = ESP_OK
      then (ESP_OK, take n (miso b @ replicate n 0), b\<lparr>miso := drop n (miso b)\<rparr>)
      else (transmit_result b, replicate n 0, b))"

definition pn5180_spi_transaction ::
  "pn5180_dev_t \<Rightarrow> spi_transaction_t \<Rightarrow> board \<Rightarrow> (esp_err_t \<times> byte list \<times> board) option"
where
  "pn5180_spi_transaction dev transaction b =
     (if \<not> mutex_free b then Some (ESP_ERR_TIMEOUT, [], b)
      else case pn5180_wait_busy dev CONFIG_PN5180_BUSY_TIMEOUT_MS b of
             None \<Rightarrow> None
           | Some (werr, b1) \<Rightarrow>
               if werr \<noteq> PN5180_OK then Some (ESP_ERR_TIMEOUT, [], b1)
               else Some (spi_device_transmit b1 transaction))"

definition pn5180_write_register_internal ::
  "pn5180_dev_t \<Rightarrow> byte \<Rightarrow> 32 word \<Rightarrow> board \<Rightarrow> (pn5180_error_t \<times> board) option"
where
  "pn5180_write_register_internal dev reg val b =
     (if spi_device dev = 0 then Some (PN5180_ERR_NOT_INIT, b)
      else
        (let tx_buffer = [PN5180_SPI_WRITE_MASK OR (reg AND 0x7F),
                          ucast (drop_bit 24 val AND 0xFF),
                          ucast (drop_bit 16 val AND 0xFF),
                          ucast (drop_bit 8 val AND 0xFF),
                          ucast (val AND 0xFF)]
         in case pn5180_spi_transaction dev (Tx tx_buffer) b of
              None \<Rightarrow> None
            | Some (err, rx, b1) \<Rightarrow>
                if err \<noteq> ESP_OK then Some (PN5180_ERR_SPI, b1) else Some (PN5180_OK, b1)))"

text \<open>
  \<open>pn5180_read_register_internal\<close> writes \<open>*value\<close> only when it returns \<open>PN5180_OK\<close>;
  the second component is the value in that case and 0 otherwise (the callers here read
  it only after \<open>PN5180_OK\<close>). The \<open>value\<close> pointer is never \<open>NULL\<close> at the call sites.
\<close>

definition pn5180_read_register_internal ::
  "pn5180_dev_t \<Rightarrow> byte \<Rightarrow> board \<Rightarrow> (pn5180_error_t \<times> 32 word \<times> board) option"
where
  "pn5180_read_register_internal dev reg b =
     (if spi_device dev = 0 then Some (PN5180_ERR_INVALID_ARG, 0, b)
      else case pn5180_spi_transaction dev (Tx [reg AND 0x7F]) b of
             None \<Rightarrow> None
           | Some (err, rx0, b1) \<Rightarrow>
               if err \<noteq> ESP_OK then Some (PN5180_ERR_SPI, 0, b1)
               else case pn5180_spi_transaction dev (Rx 4) b1 of
                      None \<Rightarrow> None
                    | Some (err2, rx_buffer, b2) \<Rightarrow>
                        if err2 \<noteq> ESP_OK then Some (PN5180_ERR_SPI, 0, b2)
                        else Some (PN5180_OK,
                               push_bit 24 (ucast (rx_buffer ! 0)) OR
                               push_bit 16 (ucast (rx_buffer ! 1)) OR
                               push_bit 8 (ucast (rx_buffer ! 2)) OR
                               ucast (rx_buffer ! 3),
                               b2))"

text \<open>
  The chunk loop of \<open>pn5180_write_buffer\<close>:
  \<^verbatim>\<open>while (offset < length) {
    size_t chunk_size = length - offset;
    if (chunk_size > 64) chunk_size = 64;
    ... pn5180_spi_transaction(dev, &trans); if (spi_err != ESP_OK) return PN5180_ERR_SPI;
    offset += chunk_size;
}\<close>
\<close>

function write_chunks ::
  "pn5180_dev_t \<Rightarrow> byte list \<Rightarrow> nat \<Rightarrow> board \<Rightarrow> (pn5180_error_t \<times> board) option"
where
  "write_chunks dev data offset b =
     (if offset < length data
      then (case pn5180_spi_transaction dev
                   (Tx (take (min 64 (length data - offset)) (drop offset data))) b of
              None \<Rightarrow> None
            | Some (spi_err, rx, b1) \<Rightarrow>
                if spi_err \<noteq> ESP_OK then Some (PN5180_ERR_SPI, b1)
                else write_chunks dev data (offset + min 64 (length data - offset)) b1)
      else Some (PN5180_OK, b))"
  by pat_completeness auto
termination
  by (relation "measure (\<lambda>(dev, data, offset, b). length data - offset)") auto

declare write_chunks.simps [simp del]

text \<open>
  \<open>pn5180_write_buffer(dev, data, length)\<close>: \<open>data\<close> is the list of the \<open>length\<close> bytes
  (never \<open>NULL\<close>). The result carries the handle because of \<open>dev->tx_length = length\<close>.
\<close>

definition pn5180_write_buffer ::
  "pn5180_dev_t \<Rightarrow> byte list \<Rightarrow> board \<Rightarrow> (pn5180_error_t \<times> pn5180_dev_t \<times> board) option"
where
  "pn5180_write_buffer dev data b =
     (if spi_device dev = 0 \<or> length data = 0 then Some (PN5180_ERR_INVALID_ARG, dev, b)
      else if length data > CONFIG_PN5180_TX_BUFFER_SIZE then Some (PN5180_ERR_BUFFER, dev, b)
      else case pn5180_write_register_internal dev PN5180_REG_TX_DATA 0 b of
             None \<Rightarrow> None
           | Some (err, b1) \<Rightarrow>
               if err \<noteq> PN5180_OK then Some (err, dev, b1)
               else case write_chunks dev data 0 b1 of
                      None \<Rightarrow> None
                    | Some (err2, b2) \<Rightarrow>
                        if err2 \<noteq> PN5180_OK then Some (err2, dev, b2)
                        else Some (PN5180_OK, dev\<lparr>tx_length := of_nat (length data)\<rparr>, b2))"

text \<open>The chunk loop of \<open>pn5180_read_buffer\<close>; \<open>buffer\<close> collects the bytes read so far.\<close>

function read_chunks ::
  "pn5180_dev_t \<Rightarrow> nat \<Rightarrow> nat \<Rightarrow> byte list \<Rightarrow> board \<Rightarrow> (pn5180_error_t \<times> byte list \<times> board) option"
where
  "read_chunks dev bytes_to_read offset buffer b =
     (if offset < bytes_to_read
      then (case pn5180_spi_transaction dev (Rx (min 64 (bytes_to_read - offset))) b of
              None \<Rightarrow> None
            | Some (spi_err, rx, b1) \<Rightarrow>
                if spi_err \<noteq> ESP_OK then Some (PN5180_ERR_SPI, buffer, b1)
                else read_chunks dev bytes_to_read (offset + min 64 (bytes_to_read - offset))
                       (buffer @ rx) b1)
      else Some (PN5180_OK, buffer, b))"
  by pat_completeness auto
termination
  by (relation "measure (\<lambda>(dev, bytes_to_read, offset, buffer, b). bytes_to_read - offset)") auto

declare read_chunks.simps [simp del]

text \<open>
  \<open>pn5180_read_buffer(dev, buffer, &length)\<close> with \<open>*length = len\<close> on entry; the result is
  the error, the bytes read, the handle (\<open>dev->rx_length\<close>) and the board.
\<close>

definition pn5180_read_buffer ::
  "pn5180_dev_t \<Rightarrow> nat \<Rightarrow> board \<Rightarrow> (pn5180_error_t \<times> byte list \<times> pn5180_dev_t \<times> board) option"
where
  "pn5180_read_buffer dev len b =
     (if spi_device dev = 0 then Some (PN5180_ERR_INVALID_ARG, [], dev, b)
      else case pn5180_write_register_internal dev PN5180_REG_RX_DATA 0 b of
             None \<Rightarrow> None
           | Some (err, b1) \<Rightarrow>
               if err \<noteq> PN5180_OK then Some (err, [], dev, b1)
               else case read_chunks dev (min len CONFIG_PN5180_RX_BUFFER_SIZE) 0 [] b1 of
                      None \<Rightarrow> None
                    | Some (err2, buffer, b2) \<Rightarrow>
                        if err2 \<noteq> PN5180_OK then Some (err2, buffer, dev, b2)
                        else Some (PN5180_OK, buffer,
                               dev\<lparr>rx_length := of_nat (min len CONFIG_PN5180_RX_BUFFER_SIZE)\<rparr>, b2))"

definition pn5180_write_tx_buffer_with_length ::
  "pn5180_dev_t \<Rightarrow> byte list \<Rightarrow> board \<Rightarrow> (pn5180_error_t \<times> pn5180_dev_t \<times> board) option"
where
  "pn5180_write_tx_buffer_with_length dev data b =
     (case pn5180_write_buffer dev data b of
        None \<Rightarrow> None
      | Some (err, dev1, b1) \<Rightarrow>
          if err \<noteq> PN5180_OK then Some (err, dev1, b1)
          else case pn5180_write_register_internal dev1 PN5180_REG_TX_LENGTH_LSB
                      (of_nat (length data) AND 0xFF) b1 of
                 None \<Rightarrow> None
               | Some (err2, b2) \<Rightarrow>
                   if err2 \<noteq> PN5180_OK then Some (err2, dev1, b2)
                   else case pn5180_write_register_internal dev1 PN5180_REG_TX_LENGTH_MSB
                               (drop_bit 8 (of_nat (length data)) AND 0xFF) b2 of
                          None \<Rightarrow> None
                        | Some (err3, b3) \<Rightarrow>
                            if err3 \<noteq> PN5180_OK then Some (err3, dev1, b3)
                            else Some (PN5180_OK, dev1, b3))"


section \<open>The driver: state machine helpers\<close>

text \<open>
  \<open>pn5180_switch_protocol\<close>. The register values are the header's constants:
  \<open>(PN5180_TX_BITRATE_106KBPS << 0) | (PN5180_TX_MOD_100_PERCENT_ASK << 2) = 0\<close>,
  \<open>(0x01 << 0) | (PN5180_TX_MOD_10_PERCENT_ASK << 2) = 5\<close>,
  \<open>PN5180_TX_DRIVER_STRENGTH_MASK = 0x0F\<close>, \<open>PN5180_RX_CONF1_GAIN_SEL_MASK = 0x7\<close>,
  \<open>PN5180_RX_BW_1_8MHZ << 3 = 0\<close>, \<open>PN5180_RX_CONF3_IQ_DET_THR_POS = 4\<close>.
\<close>

definition switch_protocol_tail ::
  "pn5180_dev_t \<Rightarrow> pn5180_error_t \<times> board \<Rightarrow> (pn5180_error_t \<times> board) option"
where
  "switch_protocol_tail dev r =
     (case r of (err, b) \<Rightarrow>
        if err \<noteq> PN5180_OK then Some (err, b)
        else case pn5180_write_register_internal dev PN5180_REG_RX_CONF1
                    ((ucast (rx_gain (rf_config dev)) AND 0x7) OR push_bit 3 0) b of
               None \<Rightarrow> None
             | Some (err1, b1) \<Rightarrow>
                 if err1 \<noteq> PN5180_OK then Some (err1, b1)
                 else pn5180_write_register_internal dev PN5180_REG_RX_CONF3
                        (push_bit 4 (ucast (iq_threshold (rf_config dev))) OR
                         push_bit 0 (ucast (modulation_depth (rf_config dev)))) b1)"

definition pn5180_switch_protocol ::
  "pn5180_dev_t \<Rightarrow> byte \<Rightarrow> board \<Rightarrow> (pn5180_error_t \<times> board) option"
where
  "pn5180_switch_protocol dev protocol b =
     (if protocol \<ge> PN5180_PROTOCOL_COUNT then Some (PN5180_ERR_INVALID_ARG, b)
      else if protocol = PN5180_PROTOCOL_ISO14443A then
        (case pn5180_write_register_internal dev PN5180_REG_TX_CONF1 0 b of
           None \<Rightarrow> None
         | Some (err, b1) \<Rightarrow>
             if err \<noteq> PN5180_OK then Some (err, b1)
             else case pn5180_write_register_internal dev PN5180_REG_ISO14443A_TX_DRIVER
                         (ucast (tx_power (rf_config dev)) AND 0x0F) b1 of
                    None \<Rightarrow> None
                  | Some r \<Rightarrow> switch_protocol_tail dev r)
      else if protocol = PN5180_PROTOCOL_ISO15693 then
        (case pn5180_write_register_internal dev PN5180_REG_TX_CONF1 5 b of
           None \<Rightarrow> None
         | Some (err, b1) \<Rightarrow>
             if err \<noteq> PN5180_OK then Some (err, b1)
             else case pn5180_write_register_internal dev PN5180_REG_ISO15693_TX_DRIVER
                         (ucast (tx_power (rf_config dev)) AND 0x0F) b1 of
                    None \<Rightarrow> None
                  | Some r \<Rightarrow> switch_protocol_tail dev r)
      else Some (PN5180_ERR_UNSUPPORTED, b))"

definition detect_cmd_iso14443a :: "byte list" where "detect_cmd_iso14443a = [0x26]"
definition detect_cmd_iso15693 :: "byte list" where "detect_cmd_iso15693 = [0x26, 0x01]"

definition pn5180_send_detect_command ::
  "pn5180_dev_t \<Rightarrow> byte \<Rightarrow> board \<Rightarrow> (pn5180_error_t \<times> pn5180_dev_t \<times> board) option"
where
  "pn5180_send_detect_command dev protocol b =
     (if protocol \<noteq> PN5180_PROTOCOL_ISO14443A \<and> protocol \<noteq> PN5180_PROTOCOL_ISO15693
      then Some (PN5180_ERR_UNSUPPORTED, dev, b)
      else
        (let cmd = (if protocol = PN5180_PROTOCOL_ISO14443A then detect_cmd_iso14443a
                    else detect_cmd_iso15693)
         in if length cmd = 0 then Some (PN5180_ERR_INVALID_ARG, dev, b)
            else case pn5180_write_tx_buffer_with_length dev cmd b of
                   None \<Rightarrow> None
                 | Some (err, dev1, b1) \<Rightarrow>
                     if err \<noteq> PN5180_OK then Some (err, dev1, b1)
                     else case pn5180_write_register_internal dev1 PN5180_REG_IRQ_STATUS
                                 PN5180_IRQ_STATUS_TX_DONE b1 of
                            None \<Rightarrow> None
                          | Some (err2, b2) \<Rightarrow>
                              if err2 \<noteq> PN5180_OK then Some (err2, dev1, b2)
                              else Some (PN5180_OK, dev1, b2)))"

section \<open>The driver: the Scanning step\<close>

text \<open>
  \<open>dev->enabled_protocols & (1 << dev->current_protocol_index)\<close>: the operands are
  promoted to 32-bit \<open>int\<close>. For an index of 32 or more the C shift is undefined; here
  the shifted value is then 0.
\<close>

definition protocol_enabled :: "byte \<Rightarrow> byte \<Rightarrow> bool" where
  "protocol_enabled enabled idx \<longleftrightarrow>
     ((ucast enabled :: 32 word) AND push_bit (unat idx) 1) \<noteq> 0"

text \<open>
  \<^verbatim>\<open>dev->current_protocol_index++;
if (dev->current_protocol_index >= PN5180_PROTOCOL_COUNT) dev->current_protocol_index = 0;\<close>
\<close>

definition next_protocol_index :: "byte \<Rightarrow> byte" where
  "next_protocol_index idx = (if idx + 1 \<ge> PN5180_PROTOCOL_COUNT then 0 else idx + 1)"

text \<open>
  The \<open>while (1)\<close> loop of \<open>pn5180_state_scanning\<close>. The result is whether the loop left
  through \<open>break\<close> (an enabled protocol was found) and the value of
  \<open>dev->current_protocol_index\<close> on leaving; \<open>None\<close> when the loop runs forever.
\<close>

partial_function (option) find_enabled_protocol ::
  "byte \<Rightarrow> byte \<Rightarrow> byte \<Rightarrow> (bool \<times> byte) option"
where
  "find_enabled_protocol enabled start_index idx =
     (if protocol_enabled enabled idx then Some (True, idx)
      else if next_protocol_index idx = start_index
           then Some (False, next_protocol_index idx)
           else find_enabled_protocol enabled start_index (next_protocol_index idx))"

definition pn5180_state_scanning ::
  "pn5180_dev_t \<Rightarrow> board \<Rightarrow> (pn5180_dev_t \<times> board) option"
where
  "pn5180_state_scanning dev b =
     (if \<not> scanning_enabled dev then Some (dev\<lparr>state := DEVICE_STATE_IDLE\<rparr>, b)
      else
        (let current_time = pn5180_get_tick_ms b
         in if current_time - last_scan_time dev < CONFIG_PN5180_SCAN_CYCLE_DELAY_MS
            then Some (dev, b)
            else case find_enabled_protocol (enabled_protocols dev)
                        (current_protocol_index dev) (current_protocol_index dev) of
                   None \<Rightarrow> None
                 | Some (found, idx) \<Rightarrow>
                     (let dev1 = dev\<lparr>current_protocol_index := idx\<rparr>
                      in if \<not> found then Some (dev1\<lparr>state := DEVICE_STATE_IDLE\<rparr>, b)
                         else case pn5180_switch_protocol dev1 idx b of
                                None \<Rightarrow> None
                              | Some (err, b1) \<Rightarrow>
                                  if err \<noteq> PN5180_OK
                                  then Some (dev1\<lparr>current_protocol_index := idx + 1,
                                                  last_scan_time := current_time\<rparr>, b1)
                                  else case pn5180_send_detect_command dev1 idx b1 of
                                         None \<Rightarrow> None
                                       | Some (err2, dev2, b2) \<Rightarrow>
                                           if err2 \<noteq> PN5180_OK
                                           then Some (dev2\<lparr>current_protocol_index := idx + 1,
                                                           last_scan_time := current_time\<rparr>, b2)
                                           else Some (dev2\<lparr>state := DEVICE_STATE_TRANSMITTING,
                                                           state_timestamp := current_time,
                                                           total_scans := total_scans dev2 + 1\<rparr>,
                                                      b2))))"

section \<open>The driver: the Transmitting step\<close>

text \<open>The \<open>switch\<close> on \<open>dev->current_protocol_index\<close> that picks the receive timeout.\<close>

definition rx_timeout_ms :: "byte \<Rightarrow> 32 word" where
  "rx_timeout_ms idx =
     (if idx = PN5180_PROTOCOL_ISO14443A then CONFIG_PN5180_DETECT_TIMEOUT_14443A_MS
      else if idx = PN5180_PROTOCOL_ISO14443B then CONFIG_PN5180_DETECT_TIMEOUT_14443B_MS
      else if idx = PN5180_PROTOCOL_ISO15693 then CONFIG_PN5180_DETECT_TIMEOUT_15693_MS
      else 5)"

definition pn5180_state_transmitting ::
  "pn5180_dev_t \<Rightarrow> board \<Rightarrow> (pn5180_dev_t \<times> board) option"
where
  "pn5180_state_transmitting dev b =
     (case pn5180_read_register_internal dev PN5180_REG_IRQ_STATUS b of
        None \<Rightarrow> None
      | Some (err, irq_status, b1) \<Rightarrow>
          if err \<noteq> PN5180_OK then Some (dev\<lparr>state := DEVICE_STATE_ERROR\<rparr>, b1)
          else if irq_status AND PN5180_IRQ_STATUS_TX_DONE \<noteq> 0 then
            (case pn5180_write_register_internal dev PN5180_REG_IRQ_STATUS
                    PN5180_IRQ_STATUS_TX_DONE b1 of
               None \<Rightarrow> None
             | Some (werr, b2) \<Rightarrow>
                 Some (dev\<lparr>state := DEVICE_STATE_RECEIVING,
                            state_timestamp := pn5180_get_tick_ms b2,
                            busy_wait_start_time :=
                              pn5180_get_tick_ms b2 + rx_timeout_ms (current_protocol_index dev)\<rparr>,
                       b2))
          else if irq_status AND PN5180_IRQ_STATUS_TX_ERROR \<noteq> 0 then
            (case pn5180_write_register_internal dev PN5180_REG_IRQ_STATUS
                    PN5180_IRQ_STATUS_TX_ERROR b1 of
               None \<Rightarrow> None
             | Some (werr, b2) \<Rightarrow>
                 Some (dev\<lparr>current_protocol_index := current_protocol_index dev + 1,
                            state := DEVICE_STATE_SCANNING\<rparr>, b2))
          else if pn5180_get_tick_ms b1 - state_timestamp dev > 100 then
            Some (dev\<lparr>current_protocol_index := current_protocol_index dev + 1,
                       state := DEVICE_STATE_SCANNING\<rparr>, b1)
          else Some (dev, b1))"

section \<open>The driver: the scan commands\<close>

text \<open>
  \<open>pn5180_cmd_start_scan(dev, cmd)\<close> with \<open>cmd->params.start_scan.protocols = protocols\<close>,
  and \<open>pn5180_cmd_stop_scan(dev, cmd)\<close>. The device mutex is taken with
  \<open>portMAX_DELAY\<close> and given back on every path; the worker is its only user here.
\<close>

definition pn5180_cmd_start_scan ::
  "pn5180_dev_t \<Rightarrow> byte \<Rightarrow> board \<Rightarrow> (pn5180_error_t \<times> pn5180_dev_t \<times> board) option"
where
  "pn5180_cmd_start_scan dev protocols b =
     (if scanning_enabled dev then Some (PN5180_OK, dev, b)
      else Some (PN5180_OK,
                 dev\<lparr>enabled_protocols := protocols,
                     scanning_enabled := True,
                     current_protocol_index := 0,
                     state := DEVICE_STATE_CONFIGURING,
                     state_timestamp := pn5180_get_tick_ms b\<rparr>,
                 b))"

definition pn5180_cmd_stop_scan ::
  "pn5180_dev_t \<Rightarrow> board \<Rightarrow> (pn5180_error_t \<times> pn5180_dev_t \<times> board) option"
where
  "pn5180_cmd_stop_scan dev b =
     (if \<not> scanning_enabled dev then Some (PN5180_OK, dev, b)
      else
        (let dev1 = dev\<lparr>scanning_enabled := False\<rparr>
         in case pn5180_read_register_internal dev1 PN5180_REG_RF_CONTROL b of
              None \<Rightarrow> None
            | Some (err, rf_control, b1) \<Rightarrow>
                if err = PN5180_OK
                then (case pn5180_write_register_internal dev1 PN5180_REG_RF_CONTROL
                             (rf_control AND NOT PN5180_RF_CONTROL_FIELD_ON) b1 of
                        None \<Rightarrow> None
                      | Some (werr, b2) \<Rightarrow>
                          Some (PN5180_OK, dev1\<lparr>state := DEVICE_STATE_IDLE\<rparr>, b2))
                else Some (PN5180_OK, dev1\<lparr>state := DEVICE_STATE_IDLE\<rparr>, b1)))"


section \<open>The sketch: what a caller of readCard receives\<close>

text \<open>
  \<open>readCard\<close> gives its caller an \<open>int8_t\<close> and the bytes it wrote into \<open>uidBuffer\<close>, and
  nothing else. \<open>readCard_record\<close> puts exactly that into a record with the three fields
  a card record is said to have, so that the two can be compared: the identifier bytes
  (the first \<open>n\<close> bytes of the buffer for a returned length \<open>n\<close>), the length, and the
  protocol tag, which is \<open>None\<close> because no output of \<open>readCard\<close> names a protocol. A
  result of 0 or less gives no record.
\<close>

record card_record =
  record_uid :: "byte list"
  record_length :: nat
  record_protocol :: "byte option"

definition readCard_record ::
  "(byte list \<Rightarrow> 8 word \<times> byte list) \<Rightarrow> byte list \<Rightarrow> byte list \<Rightarrow> card_record option"
where
  "readCard_record activateTypeA stackAfter uidBuffer =
     (case readCard activateTypeA stackAfter uidBuffer of
        (uidLength, uid) \<Rightarrow>
          if 0 < sint uidLength
          then Some \<lparr>record_uid = take (nat (sint uidLength)) uid,
                      record_length = nat (sint uidLength),
                      record_protocol = None\<rparr>
          else None)"

section \<open>Concrete inputs of the sketch\<close>

text \<open>
  \<open>card_shown\<close> is the sketch in NFC mode with the card \<open>DE AD BE EF\<close> detected and already
  on the display, nothing drawn and no reader reset so far in the trace.
  \<open>crafted_mifare\<close> is an activation that reports a 4-byte UID and writes ATQA \<open>04 00\<close>,
  SAK \<open>08\<close> and UID \<open>DE AD BE EF\<close> into the first seven bytes of the buffer.
\<close>

definition card_shown :: sketch where
  "card_shown =
     \<lparr>currentMode = MODE_NFC, lastDisplayedMode = MODE_NFC,
      currentWifiSubMode = WIFI_SUB_NONE, lastWifiSubMode = WIFI_SUB_NONE,
      displayUpdateRequired = False, cardDetected = True, lastUID = ''DE AD BE EF'',
      drawn = [], nfcResets = 0\<rparr>"

definition crafted_mifare :: "byte list \<Rightarrow> 8 word \<times> byte list" where
  "crafted_mifare buf = (4, [0x04, 0x00, 0x08, 0xDE, 0xAD, 0xBE, 0xEF] @ drop 7 buf)"

section \<open>Concrete boards and handles\<close>

text \<open>
  Inputs for the closed theorems below. \<open>ready_board now reply\<close> is a board at time
  \<open>now\<close> whose BUSY line is low, whose bus lock is free, whose transfers succeed and
  whose chip will shift out \<open>reply\<close>; \<open>stuck_board\<close> is the same board with the BUSY line
  held high for ever. \<open>sample_dev\<close> is an initialised handle in the Transmitting state,
  which it entered at time 900, scanning protocol 0 (ISO14443A).
\<close>

definition ready_board :: "32 word \<Rightarrow> byte list \<Rightarrow> board" where
  "ready_board now reply =
     \<lparr>tick_ms = now, busy_pin = (\<lambda>t. False), mutex_free = True, transmit_result = ESP_OK,
      miso = reply, mosi = [], callbacks = []\<rparr>"

definition stuck_board :: board where
  "stuck_board = (ready_board 1000 [])\<lparr>busy_pin := (\<lambda>t. True)\<rparr>"

definition sample_dev :: pn5180_dev_t where
  "sample_dev =
     \<lparr>spi_device = 1, state = DEVICE_STATE_TRANSMITTING, state_timestamp = 900,
      error_count = 0,
      rf_config = \<lparr>rx_gain = 0x07, tx_power = 0x0F, modulation_depth = 0x02,
                   iq_threshold = 0x01\<rparr>,
      scanning_enabled = True, enabled_protocols = 1, current_protocol_index = 0,
      last_scan_time = 900, card_callback = 0, error_callback = 0, log_callback = 0,
      callback_user_data = 0, tx_length = 0, rx_length = 0, total_scans = 0,
      cards_detected = 0, busy_wait_start_time = 0\<rparr>"

text \<open>
  The board that a wait for BUSY leaves behind when it gives up after the configured
  100 ms: the clock has moved by 101 polls of 1 ms and the time-out has been logged.
\<close>

definition after_busy_timeout :: "pn5180_dev_t \<Rightarrow> board \<Rightarrow> board" where
  "after_busy_timeout dev b = pn5180_log_internal dev 2 (b\<lparr>tick_ms := tick_ms b + 101\<rparr>)"

chapter \<open>Properties\<close>

section \<open>Lemmas about the sketch\<close>

lemma all_bytes_loop_iff:
  "all_bytes_loop uid v i hi \<longleftrightarrow> (\<forall>k. i \<le> k \<and> k < hi \<longrightarrow> uid ! k = v)"
proof (induction uid v i hi rule: all_bytes_loop.induct)
  case (1 uid v byteIndex hi)
  show ?case
  proof (cases "byteIndex < hi")
    case False
    then show ?thesis by (auto simp: all_bytes_loop.simps [of uid v byteIndex hi])
  next
    case True
    show ?thesis
    proof (cases "uid ! byteIndex = v")
      case False
      with True show ?thesis
        by (auto simp: all_bytes_loop.simps [of uid v byteIndex hi])
    next
      case eq: True
      have "all_bytes_loop uid v byteIndex hi = all_bytes_loop uid v (Suc byteIndex) hi"
        using True eq by (simp add: all_bytes_loop.simps [of uid v byteIndex hi])
      also have "\<dots> \<longleftrightarrow> (\<forall>k. Suc byteIndex \<le> k \<and> k < hi \<longrightarrow> uid ! k = v)"
        using 1 True eq by simp
      also have "\<dots> \<longleftrightarrow> (\<forall>k. byteIndex \<le> k \<and> k < hi \<longrightarrow> uid ! k = v)"
        using eq by (metis Suc_leI le_neq_implies_less Suc_leD)
      finally show ?thesis .
    qed
  qed
qed

lemma all_bytes_loop_first:
  "i < hi \<Longrightarrow> uid ! i \<noteq> v \<Longrightarrow> \<not> all_bytes_loop uid v i hi"
  by (simp add: all_bytes_loop.simps [of uid v i hi])

lemma take_replicate_nth:
  assumes "take n xs = replicate n v" "k < n"
  shows "xs ! k = v"
proof -
  have "take n xs ! k = v" using assms by simp
  then show ?thesis using assms(2) by simp
qed

lemma all_bytes_loop_prefix:
  assumes "take n uid = replicate n v" "hi \<le> n"
  shows "all_bytes_loop uid v i hi"
  unfolding all_bytes_loop_iff using assms take_replicate_nth [OF assms(1)] by simp

lemma validate4_blank:
  assumes "take 4 uid = replicate 4 v" "v = 0x00 \<or> v = 0xFF"
  shows "\<not> validate4ByteUID uid"
proof -
  have "all_bytes_loop uid v 0 4" using assms(1) by (rule all_bytes_loop_prefix) simp
  then show ?thesis using assms(2) unfolding validate4ByteUID_def by (elim disjE) simp_all
qed

lemma validate7_blank:
  assumes "take 7 uid = replicate 7 v" "v = 0x00 \<or> v = 0xFF"
  shows "\<not> validate7ByteUID uid"
proof -
  have "uid ! 3 = v" using assms(1) take_replicate_nth [of 7 uid v 3] by simp
  then show ?thesis using assms(2) unfolding validate7ByteUID_def by (elim disjE) simp_all
qed

lemma validate10_blank:
  assumes "take 10 uid = replicate 10 v" "v = 0x00 \<or> v = 0xFF"
  shows "\<not> validate10ByteUID uid"
proof -
  have "all_bytes_loop uid v 0 10" using assms(1) by (rule all_bytes_loop_prefix) simp
  then show ?thesis using assms(2) unfolding validate10ByteUID_def by (elim disjE) simp_all
qed

lemma readCard_nonpos:
  assumes "activateTypeA (replicate 10 0xFF) = (len, resp)" "sint len \<le> 0"
  shows "readCard activateTypeA stackAfter uidBuffer = (len, uidBuffer)"
  using assms(2) unfolding readCard_def assms(1) Let_def prod.case by simp

lemma readCard_pos:
  assumes "activateTypeA (replicate 10 0xFF) = (len, resp)" "0 < sint len"
  shows "readCard activateTypeA stackAfter uidBuffer = (- 3, uidBuffer)
       \<or> fst (readCard activateTypeA stackAfter uidBuffer) = 4
       \<or> fst (readCard activateTypeA stackAfter uidBuffer) = 7
       \<or> fst (readCard activateTypeA stackAfter uidBuffer) = 10"
  using assms(2) unfolding readCard_def assms(1) Let_def prod.case
  by (cases "len = 4"; cases "len = 7"; cases "len = 10"; simp)

lemma readCard_bad_length:
  assumes "activateTypeA (replicate 10 0xFF) = (len, resp)" "0 < sint len"
    and "len \<noteq> 4 \<and> len \<noteq> 7 \<and> len \<noteq> 10"
  shows "readCard activateTypeA stackAfter uidBuffer = (- 3, uidBuffer)"
  using assms(2,3) unfolding readCard_def assms(1) Let_def prod.case by simp

lemma copy_uid_loop_eq:
  "n \<le> length uidBuffer \<Longrightarrow> i \<le> n \<Longrightarrow>
   copy_uid_loop mem uidBuffer i n =
     take i uidBuffer @ map (\<lambda>k. mem ! (3 + k)) [i..<n] @ drop n uidBuffer"
proof (induction mem uidBuffer i n rule: copy_uid_loop.induct)
  case (1 mem uidBuffer byteIndex n)
  show ?case
  proof (cases "byteIndex < n")
    case False
    with 1(3) have "byteIndex = n" by simp
    then show ?thesis by (simp add: copy_uid_loop.simps [of mem uidBuffer n n])
  next
    case True
    let ?b = "uidBuffer[byteIndex := mem ! (3 + byteIndex)]"
    have "copy_uid_loop mem uidBuffer byteIndex n = copy_uid_loop mem ?b (Suc byteIndex) n"
      using True by (simp add: copy_uid_loop.simps [of mem uidBuffer byteIndex n])
    also have "\<dots> = take (Suc byteIndex) ?b @ map (\<lambda>k. mem ! (3 + k)) [Suc byteIndex..<n]
                     @ drop n ?b"
      using 1 True by simp
    also have "take (Suc byteIndex) ?b = take byteIndex uidBuffer @ [mem ! (3 + byteIndex)]"
      using True 1(2) by (simp add: take_Suc_conv_app_nth)
    also have "drop n ?b = drop n uidBuffer"
      using True by simp
    finally show ?thesis using True by (simp add: upt_conv_Cons)
  qed
qed

lemma uid_string_mifare:
  "uid_string_loop (0xDE # 0xAD # 0xBE # 0xEF # rest) 0 4 '''' = ''DE AD BE EF''"
  by (simp add: uid_string_loop.simps [of _ _ 4] hex_byte_def hex_digit_def)

lemma readCard_mifare:
  assumes act: "activateTypeA (replicate 10 0xFF) = (4, resp)"
    and resp: "take 7 resp = [0x04, 0x00, 0x08, 0xDE, 0xAD, 0xBE, 0xEF]"
    and buf: "length uidBuffer = 10"
  shows "readCard activateTypeA stackAfter uidBuffer
           = (4, [0xDE, 0xAD, 0xBE, 0xEF] @ drop 4 uidBuffer)"
proof -
  let ?mem = "resp @ stackAfter"
  let ?uid = "drop 3 ?mem"
  have len: "7 \<le> length resp" using arg_cong [OF resp, of length] by simp
  have nth: "?mem ! k = [0x04, 0x00, 0x08, 0xDE, 0xAD, 0xBE, 0xEF] ! k" if "k < 7" for k
  proof -
    have "?mem ! k = resp ! k" using that len by (simp add: nth_append)
    also have "\<dots> = take 7 resp ! k" using that by simp
    finally show ?thesis using resp by simp
  qed
  have m0: "?mem ! 0 = 0x04" and m1: "?mem ! 1 = 0x00" and m2: "?mem ! 2 = 0x08"
    and m3: "?mem ! 3 = 0xDE" and m4: "?mem ! 4 = 0xAD" and m5: "?mem ! 5 = 0xBE"
    and m6: "?mem ! 6 = 0xEF"
    using nth [of 0] nth [of 1] nth [of 2] nth [of 3] nth [of 4] nth [of 5] nth [of 6]
    by simp_all
  have atqa: "atqa_of ?mem = 0x0004" unfolding atqa_of_def m0 m1 by simp
  have sak: "isValidSAK (?mem ! 2)" unfolding m2 by (simp add: isValidSAK_def)
  have "?uid ! 0 = ?mem ! (3 + 0)" by (rule nth_drop) (use len in simp)
  then have u0: "?uid ! 0 = 0xDE" using m3 by simp
  have "\<not> all_bytes_loop ?uid 0x00 0 4" and "\<not> all_bytes_loop ?uid 0xFF 0 4"
    using u0 by (simp_all add: all_bytes_loop_first del: drop_append)
  then have v4: "validate4ByteUID ?uid"
    unfolding validate4ByteUID_def using u0 by (simp del: drop_append)
  have cp: "copy_uid_loop ?mem uidBuffer 0 4 = [0xDE, 0xAD, 0xBE, 0xEF] @ drop 4 uidBuffer"
    using buf m3 m4 m5 m6 by (simp add: copy_uid_loop_eq upt_rec numeral_eq_Suc del: nth_append)
  show ?thesis
    unfolding readCard_def act Let_def prod.case using atqa sak v4 cp by simp
qed

lemma readCard_record_mifare:
  assumes "readCard activateTypeA stackAfter uidBuffer
           = (4, [0xDE, 0xAD, 0xBE, 0xEF] @ drop 4 uidBuffer)"
  shows "readCard_record activateTypeA stackAfter uidBuffer
           = Some \<lparr>record_uid = [0xDE, 0xAD, 0xBE, 0xEF], record_length = 4,
                   record_protocol = None\<rparr>"
  by (simp add: readCard_record_def assms)

section \<open>Claims about the sketch\<close>

text \<open>
  Claim C1, as amended. When the activation returns a positive length other than 4, 7
  and 10, \<open>readCard\<close> returns \<open>-3\<close> and leaves the caller's buffer as it was, and the pass
  of \<open>loop()\<close> that made the call does not take the card-detected path: \<open>lastUID\<close> keeps
  its value and \<open>cardDetected\<close> is false afterwards. The display path is still entered:
  the pass resets the reader once, and it draws the no-card screen (and only that screen)
  exactly when a card was detected before or a redraw was due anyway (the update flag
  set, or the mode shown differing from the current one).
\<close>

theorem readCard_invalid_length_rejected:
  assumes act: "activateTypeA (replicate 10 0xFF) = (len, resp)"
    and pos: "0 < sint len"
    and bad: "len \<noteq> 4 \<and> len \<noteq> 7 \<and> len \<noteq> 10"
    and mode: "currentMode s = MODE_NFC"
  shows "readCard activateTypeA stackAfter uidBuffer = (- 3, uidBuffer)
       \<and> lastUID (loop_nfc activateTypeA stackAfter s) = lastUID s
       \<and> \<not> cardDetected (loop_nfc activateTypeA stackAfter s)
       \<and> nfcResets (loop_nfc activateTypeA stackAfter s) = Suc (nfcResets s)
       \<and> drawn (loop_nfc activateTypeA stackAfter s) =
           (if cardDetected s \<or> displayUpdateRequired s \<or> lastDisplayedMode s \<noteq> MODE_NFC
               \<or> currentWifiSubMode s \<noteq> lastWifiSubMode s
            then drawn s @ [NoCardScreen] else drawn s)"
proof -
  have rc: "readCard activateTypeA stackAfter buf = (- 3, buf)" for buf
    using readCard_bad_length [of activateTypeA len resp stackAfter buf] act pos bad by simp
  let ?s1 = "nfc_mode_step activateTypeA stackAfter s"
  have s1: "?s1 = (if cardDetected s
                   then s\<lparr>nfcResets := Suc (nfcResets s), cardDetected := False,
                          displayUpdateRequired := True\<rparr>
                   else s\<lparr>nfcResets := Suc (nfcResets s)\<rparr>)"
    unfolding nfc_mode_step_def rc Let_def prod.case by simp
  have a: "lastUID ?s1 = lastUID s" and b: "\<not> cardDetected ?s1"
    and c: "drawn ?s1 = drawn s" and d: "currentMode ?s1 = MODE_NFC"
    and e: "nfcResets ?s1 = Suc (nfcResets s)"
    and f: "displayUpdateRequired ?s1 = (cardDetected s \<or> displayUpdateRequired s)"
    and g: "lastDisplayedMode ?s1 = lastDisplayedMode s"
    and h: "currentWifiSubMode ?s1 = currentWifiSubMode s"
    and i: "lastWifiSubMode ?s1 = lastWifiSubMode s"
    using mode by (simp_all add: s1)
  have "lastUID (updateDisplay ?s1) = lastUID s"
    using a by (simp add: updateDisplay_def Let_def)
  moreover have "\<not> cardDetected (updateDisplay ?s1)"
    using b by (simp add: updateDisplay_def Let_def)
  moreover have "nfcResets (updateDisplay ?s1) = Suc (nfcResets s)"
    using e by (simp add: updateDisplay_def Let_def)
  moreover have "drawn (updateDisplay ?s1) =
           (if cardDetected s \<or> displayUpdateRequired s \<or> lastDisplayedMode s \<noteq> MODE_NFC
               \<or> currentWifiSubMode s \<noteq> lastWifiSubMode s
            then drawn s @ [NoCardScreen] else drawn s)"
    using b c d f g h i by (auto simp: updateDisplay_def Let_def)
  ultimately show ?thesis using rc unfolding loop_nfc_def by simp
qed

theorem readCard_invalid_length_rejected_witness:
  "(\<lambda>buf. (5, buf)) (replicate 10 (0xFF :: byte)) = (5 :: 8 word, replicate 10 0xFF)
   \<and> 0 < sint (5 :: 8 word)
   \<and> currentMode card_shown = MODE_NFC
   \<and> readCard (\<lambda>buf. (5, buf)) [] (replicate 10 0) = (- 3, replicate 10 0)
   \<and> \<not> cardDetected (loop_nfc (\<lambda>buf. (5, buf)) [] card_shown)
   \<and> lastUID (loop_nfc (\<lambda>buf. (5, buf)) [] card_shown) = ''DE AD BE EF''"
  using readCard_invalid_length_rejected
    [of "\<lambda>buf. (5, buf)" 5 "replicate 10 0xFF" card_shown "[]" "replicate 10 0"]
  by (simp add: card_shown_def)

text \<open>
  The claim as written fails: with a card on the display, a response of length 5 makes
  the pass redraw the display (the no-card screen) and reset the reader.
\<close>

theorem invalid_length_redraws_display:
  "readCard (\<lambda>buf. (5, buf)) [] (replicate 10 0) = (- 3, replicate 10 0)
   \<and> drawn card_shown = []
   \<and> drawn (loop_nfc (\<lambda>buf. (5, buf)) [] card_shown) = [NoCardScreen]
   \<and> nfcResets (loop_nfc (\<lambda>buf. (5, buf)) [] card_shown) = 1"
  using readCard_bad_length [of "\<lambda>buf. (5, buf)" 5 "replicate 10 0xFF" "[]"]
  by (simp add: loop_nfc_def nfc_mode_step_def updateDisplay_def card_shown_def Let_def)

text \<open>
  What holds of claim C2: each of the three validators returns false on an identifier of
  its length that is all \<open>0x00\<close> or all \<open>0xFF\<close>, and \<open>readCard\<close>, handed a response of length
  4 or 7 whose identifier bytes are all \<open>0x00\<close> or all \<open>0xFF\<close>, returns \<open>-3\<close> and leaves the
  caller's buffer as it was.
\<close>

lemma blank_uid_rejected_lengths_4_7:
  assumes act: "activateTypeA (replicate 10 0xFF) = (len, resp)"
    and len: "len = 4 \<or> len = 7"
    and uid: "take (unat len) (drop 3 (resp @ stackAfter)) = replicate (unat len) v"
    and v: "v = 0x00 \<or> v = 0xFF"
  shows "\<not> validate4ByteUID (replicate 4 v) \<and> \<not> validate7ByteUID (replicate 7 v)
       \<and> \<not> validate10ByteUID (replicate 10 v)
       \<and> readCard activateTypeA stackAfter uidBuffer = (- 3, uidBuffer)"
proof -
  have "\<not> validate4ByteUID (replicate 4 v)" using v by (intro validate4_blank) simp_all
  moreover have "\<not> validate7ByteUID (replicate 7 v)" using v by (intro validate7_blank) simp_all
  moreover have "\<not> validate10ByteUID (replicate 10 v)"
    using v by (intro validate10_blank) simp_all
  moreover have "readCard activateTypeA stackAfter uidBuffer = (- 3, uidBuffer)"
    using len
  proof (elim disjE)
    assume l: "len = 4"
    then have "\<not> validate4ByteUID (drop 3 (resp @ stackAfter))"
      using uid v validate4_blank by simp
    then show ?thesis using l unfolding readCard_def act Let_def prod.case by simp
  next
    assume l: "len = 7"
    then have "\<not> validate7ByteUID (drop 3 (resp @ stackAfter))"
      using uid v validate7_blank by simp
    then show ?thesis using l unfolding readCard_def act Let_def prod.case by simp
  qed
  ultimately show ?thesis by simp
qed

text \<open>
  Claim C2 at length 10. \<open>validate10ByteUID\<close> rejects ten bytes of \<open>0x00\<close>, but \<open>readCard\<close>
  hands it \<open>&responseBuffer[3]\<close>, of which only seven bytes lie in the 10-byte buffer. With
  a reported length of 10, the seven identifier bytes of the buffer all \<open>0x00\<close> and the
  three bytes after the buffer \<open>01 02 03\<close>, the identifier is accepted: \<open>readCard\<close> returns
  10 and copies the seven zero bytes and the three foreign bytes into the caller's buffer.
\<close>

theorem blank_ten_byte_uid_accepted:
  "\<not> validate10ByteUID (replicate 10 0x00)
   \<and> take 7 (drop 3 ([0x44, 0x00, 0x00] @ replicate 7 (0x00 :: byte))) = replicate 7 0x00
   \<and> readCard (\<lambda>buf. (10, [0x44, 0x00, 0x00] @ replicate 7 0x00)) [0x01, 0x02, 0x03]
        (replicate 10 0xAA)
       = (10, replicate 7 0x00 @ [0x01, 0x02, 0x03])"
proof -
  have a: "\<not> validate10ByteUID (replicate 10 0x00)"
    by (intro validate10_blank [where v = 0]) simp_all
  let ?uid = "replicate 7 (0x00 :: byte) @ [0x01, 0x02, 0x03]"
  have "?uid ! 7 \<noteq> 0x00" by (simp add: nth_append)
  then have z: "\<not> all_bytes_loop ?uid 0x00 0 10"
    unfolding all_bytes_loop_iff by (intro notI) (erule allE [of _ 7], simp)
  have f: "\<not> all_bytes_loop ?uid 0xFF 0 10"
    by (rule all_bytes_loop_first) (simp_all add: nth_append)
  have v: "validate10ByteUID ?uid" using z f by (simp add: validate10ByteUID_def)
  have cp: "copy_uid_loop (([0x44, 0x00, 0x00] @ replicate 7 0x00) @ [0x01, 0x02, 0x03])
              (replicate 10 0xAA) 0 10 = ?uid"
    by (simp add: copy_uid_loop_eq upt_rec numeral_eq_Suc)
  have rc: "readCard (\<lambda>buf. (10, [0x44, 0x00, 0x00] @ replicate 7 0x00)) [0x01, 0x02, 0x03]
        (replicate 10 0xAA) = (10, ?uid)"
    unfolding readCard_def Let_def prod.case using v cp
    by (simp add: atqa_of_def isValidSAK_def)
  show ?thesis using a rc by simp
qed

text \<open>
  Claim C3, as amended. For the crafted response with ATQA bytes \<open>04 00\<close>, SAK \<open>08\<close> and
  UID \<open>DE AD BE EF\<close>, reported with length 4, \<open>readCard\<close> returns 4 and puts exactly
  \<open>DE AD BE EF\<close> into the first four bytes of the caller's buffer, keeping the rest; what
  the caller receives is the identifier \<open>DE AD BE EF\<close>, the length 4 and no protocol tag;
  and the pass of \<open>loop()\<close> records the card as \<open>"DE AD BE EF"\<close>.
\<close>

theorem readCard_mifare_roundtrip:
  assumes act: "activateTypeA (replicate 10 0xFF) = (4, resp)"
    and resp: "take 7 resp = [0x04, 0x00, 0x08, 0xDE, 0xAD, 0xBE, 0xEF]"
    and buf: "length uidBuffer = 10"
  shows "readCard activateTypeA stackAfter uidBuffer
           = (4, [0xDE, 0xAD, 0xBE, 0xEF] @ drop 4 uidBuffer)
       \<and> readCard_record activateTypeA stackAfter uidBuffer
           = Some \<lparr>record_uid = [0xDE, 0xAD, 0xBE, 0xEF], record_length = 4,
                   record_protocol = None\<rparr>
       \<and> cardDetected (loop_nfc activateTypeA stackAfter s)
       \<and> lastUID (loop_nfc activateTypeA stackAfter s) = ''DE AD BE EF''"
proof -
  have rc: "readCard activateTypeA stackAfter b = (4, [0xDE, 0xAD, 0xBE, 0xEF] @ drop 4 b)"
    if "length b = 10" for b
    using readCard_mifare [of activateTypeA resp b stackAfter] act resp that by simp
  let ?s1 = "nfc_mode_step activateTypeA stackAfter s"
  have s1: "?s1 = (if \<not> cardDetected s \<or> ''DE AD BE EF'' \<noteq> lastUID s
                   then s\<lparr>cardDetected := True, lastUID := ''DE AD BE EF'',
                          displayUpdateRequired := True\<rparr>
                   else s)"
    unfolding nfc_mode_step_def Let_def
    by (simp only: rc [of "replicate 10 0", simplified] prod.case)
       (simp add: uid_string_mifare)
  have "cardDetected ?s1" and "lastUID ?s1 = ''DE AD BE EF''"
    by (auto simp: s1)
  then have "cardDetected (updateDisplay ?s1)"
    and "lastUID (updateDisplay ?s1) = ''DE AD BE EF''"
    by (simp_all add: updateDisplay_def Let_def)
  then show ?thesis using rc [OF buf] readCard_record_mifare [OF rc [OF buf]]
    unfolding loop_nfc_def by simp
qed

theorem readCard_mifare_roundtrip_witness:
  "readCard crafted_mifare [] (replicate 10 0) = (4, [0xDE, 0xAD, 0xBE, 0xEF, 0, 0, 0, 0, 0, 0])
   \<and> lastUID (loop_nfc crafted_mifare [] card_shown) = ''DE AD BE EF''"
  using readCard_mifare_roundtrip [of crafted_mifare
      "[0x04, 0x00, 0x08, 0xDE, 0xAD, 0xBE, 0xEF, 0xFF, 0xFF, 0xFF]" "replicate 10 0" "[]"
      card_shown]
  by (simp add: numeral_eq_Suc crafted_mifare_def)

text \<open>
  The claim as written fails: what \<open>readCard\<close> returns for the crafted response has the
  identifier and the length, and its protocol tag is not ISO14443A, because there is none.
\<close>

theorem readCard_returns_no_protocol_tag:
  "readCard_record crafted_mifare [] (replicate 10 0)
     = Some \<lparr>record_uid = [0xDE, 0xAD, 0xBE, 0xEF], record_length = 4, record_protocol = None\<rparr>
   \<and> record_protocol (the (readCard_record crafted_mifare [] (replicate 10 0)))
       \<noteq> Some PN5180_PROTOCOL_ISO14443A"
proof -
  have "readCard crafted_mifare [] (replicate 10 0)
          = (4, [0xDE, 0xAD, 0xBE, 0xEF] @ drop 4 (replicate 10 0))"
    by (rule readCard_mifare
          [where resp = "[0x04, 0x00, 0x08, 0xDE, 0xAD, 0xBE, 0xEF, 0xFF, 0xFF, 0xFF]"])
       (simp_all add: crafted_mifare_def numeral_eq_Suc)
  from readCard_record_mifare [OF this] show ?thesis by simp
qed

text \<open>
  Claim C4. When the activation reports a 7-byte UID and the candidate identifier's byte
  at index 3 (byte 6 of the response buffer) is not the cascade tag \<open>0x88\<close>,
  \<open>validate7ByteUID\<close> returns false and \<open>readCard\<close> returns \<open>-3\<close> with the caller's buffer
  as it was, whatever the ATQA, the SAK and the other identifier bytes are.
\<close>

theorem seven_byte_uid_needs_cascade_tag:
  assumes act: "activateTypeA (replicate 10 0xFF) = (7, resp)"
    and len: "length resp = 10"
    and ct: "resp ! 6 \<noteq> 0x88"
  shows "\<not> validate7ByteUID (drop 3 (resp @ stackAfter))
       \<and> readCard activateTypeA stackAfter uidBuffer = (- 3, uidBuffer)"
proof -
  have "drop 3 (resp @ stackAfter) ! 3 = resp ! 6" using len by (simp add: nth_append)
  then have nv: "\<not> validate7ByteUID (drop 3 (resp @ stackAfter))"
    using ct by (simp add: validate7ByteUID_def)
  then show ?thesis unfolding readCard_def act Let_def prod.case by simp
qed

theorem seven_byte_uid_needs_cascade_tag_witness:
  "[0x44, 0x00, 0x00, 0x04, 0x11, 0x22, 0x33, 0x44, 0x55, 0x66] ! 6 \<noteq> (0x88 :: byte)
   \<and> readCard (\<lambda>buf. (7, [0x44, 0x00, 0x00, 0x04, 0x11, 0x22, 0x33, 0x44, 0x55, 0x66])) []
       (replicate 10 0)
      = (- 3, replicate 10 0)"
  using seven_byte_uid_needs_cascade_tag
    [of "\<lambda>buf. (7, [0x44, 0x00, 0x00, 0x04, 0x11, 0x22, 0x33, 0x44, 0x55, 0x66])"
      "[0x44, 0x00, 0x00, 0x04, 0x11, 0x22, 0x33, 0x44, 0x55, 0x66]" "[]" "replicate 10 0"]
  by simp

text \<open>
  Claim C9. When \<open>readCard\<close> returns 0 or a negative value, the caller's \<open>uidBuffer\<close> is
  exactly what it was before the call.
\<close>

theorem readCard_failure_keeps_buffer:
  "sint (fst (readCard activateTypeA stackAfter uidBuffer)) \<le> 0
   \<Longrightarrow> snd (readCard activateTypeA stackAfter uidBuffer) = uidBuffer"
proof -
  assume h: "sint (fst (readCard activateTypeA stackAfter uidBuffer)) \<le> 0"
  obtain len resp where act: "activateTypeA (replicate 10 0xFF) = (len, resp)"
    by (cases "activateTypeA (replicate 10 0xFF)")
  show ?thesis
  proof (cases "sint len \<le> 0")
    case True
    then show ?thesis
      using readCard_nonpos [of activateTypeA len resp stackAfter uidBuffer] act by simp
  next
    case False
    then have "0 < sint len" by simp
    with readCard_pos [of activateTypeA len resp stackAfter uidBuffer] act
    have "readCard activateTypeA stackAfter uidBuffer = (- 3, uidBuffer)
       \<or> fst (readCard activateTypeA stackAfter uidBuffer) = 4
       \<or> fst (readCard activateTypeA stackAfter uidBuffer) = 7
       \<or> fst (readCard activateTypeA stackAfter uidBuffer) = 10" by blast
    then show ?thesis using h by (elim disjE) simp_all
  qed
qed

theorem readCard_failure_keeps_buffer_witness:
  "sint (fst (readCard (\<lambda>buf. (4, [0x00, 0x00, 0x08, 0xDE, 0xAD, 0xBE, 0xEF] @ drop 7 buf)) []
                [1, 2, 3, 4, 5, 6, 7, 8, 9, 10])) \<le> 0
   \<and> snd (readCard (\<lambda>buf. (4, [0x00, 0x00, 0x08, 0xDE, 0xAD, 0xBE, 0xEF] @ drop 7 buf)) []
            [1, 2, 3, 4, 5, 6, 7, 8, 9, 10])
       = [1, 2, 3, 4, 5, 6, 7, 8, 9, 10]"
  using readCard_failure_keeps_buffer
    [of "\<lambda>buf. (4, [0x00, 0x00, 0x08, 0xDE, 0xAD, 0xBE, 0xEF] @ drop 7 buf)" "[]"
      "[1, 2, 3, 4, 5, 6, 7, 8, 9, 10]"]
  by (simp add: readCard_def atqa_of_def)


section \<open>Lemmas about the bus transport\<close>

lemma elapsed_after_delay:
  "tick_ms (vTaskDelay_ms 1 b) - start = (tick_ms b - start) + 1"
  by (simp add: vTaskDelay_ms_def)

lemma unat_succ_le:
  fixes e t :: "32 word"
  assumes "\<not> t < e" "unat t + 1 < 2 ^ 32"
  shows "unat (e + 1) = unat e + 1"
proof -
  have "unat e \<le> unat t" using assms(1) by (simp add: word_less_nat_alt)
  then have "unat e + unat (1 :: 32 word) < 2 ^ LENGTH(32)" using assms(2) by simp
  then show ?thesis by (simp add: unat_add_lem [THEN iffD1])
qed

lemma wait_busy_loop_total_aux:
  fixes timeout_ms :: "32 word"
  assumes t: "unat timeout_ms + 1 < 2 ^ 32"
  shows "unat timeout_ms + 1 - unat (tick_ms b - start) = n \<Longrightarrow>
         unat (tick_ms b - start) \<le> unat timeout_ms + 1 \<Longrightarrow>
         \<exists>r. wait_busy_loop dev start timeout_ms b = Some r"
proof (induction n arbitrary: b)
  case 0
  then have "unat (tick_ms b - start) = unat timeout_ms + 1" by simp
  then have gt: "timeout_ms < tick_ms b - start" by (simp add: word_less_nat_alt)
  show ?case
    by (subst wait_busy_loop.simps) (simp add: gt pn5180_get_tick_ms_def)
next
  case (Suc n)
  show ?case
  proof (cases "pn5180_is_busy_active b \<and> \<not> timeout_ms < tick_ms b - start")
    case False
    then show ?thesis
      by (subst wait_busy_loop.simps) (auto simp: pn5180_get_tick_ms_def)
  next
    case True
    let ?b = "vTaskDelay_ms 1 b"
    have e: "unat (tick_ms ?b - start) = unat (tick_ms b - start) + 1"
      unfolding elapsed_after_delay using True t by (intro unat_succ_le) auto
    have "\<exists>r. wait_busy_loop dev start timeout_ms ?b = Some r"
    proof (rule Suc.IH)
      show "unat timeout_ms + 1 - unat (tick_ms ?b - start) = n"
        using Suc.prems e by simp
      show "unat (tick_ms ?b - start) \<le> unat timeout_ms + 1"
        using True e by (simp add: word_less_nat_alt)
    qed
    then show ?thesis
      using True by (subst wait_busy_loop.simps) (simp add: pn5180_get_tick_ms_def)
  qed
qed

lemma pn5180_wait_busy_returns:
  fixes timeout_ms :: "32 word"
  assumes "timeout_ms \<noteq> - 1"
  shows "\<exists>r. pn5180_wait_busy dev timeout_ms b = Some r"
proof -
  have "unat timeout_ms \<noteq> 4294967295"
  proof
    assume "unat timeout_ms = 4294967295"
    then have "of_nat (unat timeout_ms) = (of_nat 4294967295 :: 32 word)" by simp
    then have "timeout_ms = - 1" by simp
    with assms show False ..
  qed
  moreover have "unat timeout_ms < 2 ^ 32" using unsigned_less [of timeout_ms, where 'a = nat] by simp
  ultimately have "unat timeout_ms + 1 < 2 ^ 32" by simp
  then show ?thesis
    unfolding pn5180_wait_busy_def pn5180_get_tick_ms_def
    by (rule wait_busy_loop_total_aux [OF _ refl]) simp
qed

lemma busy_after_delay [simp]: "busy_pin (vTaskDelay_ms n b) = busy_pin b"
  by (simp add: vTaskDelay_ms_def)

lemma wait_busy_loop_stuck_aux:
  fixes timeout_ms :: "32 word"
  assumes t: "unat timeout_ms + 1 < 2 ^ 32"
  shows "unat timeout_ms + 1 - unat (tick_ms b - start) = n \<Longrightarrow>
         unat (tick_ms b - start) \<le> unat timeout_ms + 1 \<Longrightarrow>
         \<forall>t. busy_pin b t \<Longrightarrow>
         wait_busy_loop dev start timeout_ms b
           = Some (PN5180_ERR_TIMEOUT,
                   pn5180_log_internal dev 2 (b\<lparr>tick_ms := start + timeout_ms + 1\<rparr>))"
proof (induction n arbitrary: b)
  case 0
  then have u: "unat (tick_ms b - start) = unat (timeout_ms + 1)"
    using t by (simp add: unat_add_lem [THEN iffD1])
  then have "tick_ms b - start = timeout_ms + 1" by (simp only: word_unat_eq_iff)
  then have tk: "tick_ms b = start + timeout_ms + 1" by (simp add: algebra_simps)
  have gt: "timeout_ms < tick_ms b - start"
    using 0 by (simp add: word_less_nat_alt)
  have "b\<lparr>tick_ms := start + timeout_ms + 1\<rparr> = b" using tk by simp
  then show ?case using 0(3) gt
    by (subst wait_busy_loop.simps)
       (simp add: pn5180_get_tick_ms_def pn5180_is_busy_active_def)
next
  case (Suc n)
  have ngt: "\<not> timeout_ms < tick_ms b - start"
    using Suc.prems(1) by (simp add: word_less_nat_alt)
  let ?b = "vTaskDelay_ms 1 b"
  have e: "unat (tick_ms ?b - start) = unat (tick_ms b - start) + 1"
    unfolding elapsed_after_delay using ngt t by (intro unat_succ_le) auto
  have "wait_busy_loop dev start timeout_ms ?b
          = Some (PN5180_ERR_TIMEOUT,
                  pn5180_log_internal dev 2 (?b\<lparr>tick_ms := start + timeout_ms + 1\<rparr>))"
  proof (rule Suc.IH)
    show "unat timeout_ms + 1 - unat (tick_ms ?b - start) = n"
      using Suc.prems e by simp
    show "unat (tick_ms ?b - start) \<le> unat timeout_ms + 1"
      using ngt e by (simp add: word_less_nat_alt)
    show "\<forall>t. busy_pin ?b t" using Suc.prems(3) by simp
  qed
  moreover have "?b\<lparr>tick_ms := start + timeout_ms + 1\<rparr> = b\<lparr>tick_ms := start + timeout_ms + 1\<rparr>"
    by (simp add: vTaskDelay_ms_def)
  ultimately show ?case using ngt Suc.prems(3)
    by (subst wait_busy_loop.simps)
       (simp add: pn5180_get_tick_ms_def pn5180_is_busy_active_def)
qed

lemma pn5180_wait_busy_stuck:
  assumes "\<forall>t. busy_pin b t"
  shows "pn5180_wait_busy dev CONFIG_PN5180_BUSY_TIMEOUT_MS b
           = Some (PN5180_ERR_TIMEOUT, after_busy_timeout dev b)"
proof -
  have "wait_busy_loop dev (tick_ms b) 100 b
          = Some (PN5180_ERR_TIMEOUT,
                  pn5180_log_internal dev 2 (b\<lparr>tick_ms := tick_ms b + 100 + 1\<rparr>))"
    by (rule wait_busy_loop_stuck_aux [OF _ refl]) (use assms in simp_all)
  then show ?thesis
    by (simp add: pn5180_wait_busy_def pn5180_get_tick_ms_def CONFIG_PN5180_BUSY_TIMEOUT_MS_def
        after_busy_timeout_def add.assoc)
qed

lemma spi_transaction_stuck:
  assumes "\<forall>t. busy_pin b t" "mutex_free b"
  shows "pn5180_spi_transaction dev transaction b
           = Some (ESP_ERR_TIMEOUT, [], after_busy_timeout dev b)"
  using assms by (simp add: pn5180_spi_transaction_def pn5180_wait_busy_stuck)

lemma write_register_stuck:
  assumes "\<forall>t. busy_pin b t" "mutex_free b" "spi_device dev \<noteq> 0"
  shows "pn5180_write_register_internal dev reg val b
           = Some (PN5180_ERR_SPI, after_busy_timeout dev b)"
  using assms by (simp add: pn5180_write_register_internal_def spi_transaction_stuck Let_def)

lemma read_register_stuck:
  assumes "\<forall>t. busy_pin b t" "mutex_free b" "spi_device dev \<noteq> 0"
  shows "pn5180_read_register_internal dev reg b
           = Some (PN5180_ERR_SPI, 0, after_busy_timeout dev b)"
  using assms by (simp add: pn5180_read_register_internal_def spi_transaction_stuck)

lemma write_buffer_stuck:
  assumes "\<forall>t. busy_pin b t" "mutex_free b" "spi_device dev \<noteq> 0"
    and "data \<noteq> []" "length data \<le> CONFIG_PN5180_TX_BUFFER_SIZE"
  shows "pn5180_write_buffer dev data b
           = Some (PN5180_ERR_SPI, dev, after_busy_timeout dev b)"
  using assms by (simp add: pn5180_write_buffer_def write_register_stuck)

lemma read_buffer_stuck:
  assumes "\<forall>t. busy_pin b t" "mutex_free b" "spi_device dev \<noteq> 0"
  shows "pn5180_read_buffer dev len b
           = Some (PN5180_ERR_SPI, [], dev, after_busy_timeout dev b)"
  using assms by (simp add: pn5180_read_buffer_def write_register_stuck)

lemma wait_busy_ready:
  "\<not> busy_pin b (tick_ms b) \<Longrightarrow> pn5180_wait_busy dev timeout_ms b = Some (PN5180_OK, b)"
  unfolding pn5180_wait_busy_def
  by (subst wait_busy_loop.simps) (simp add: pn5180_is_busy_active_def)

lemma spi_transaction_ready:
  "mutex_free b \<Longrightarrow> \<not> busy_pin b (tick_ms b) \<Longrightarrow>
   pn5180_spi_transaction dev transaction b = Some (spi_device_transmit b transaction)"
  by (simp add: pn5180_spi_transaction_def wait_busy_ready)

lemma spi_transaction_returns:
  "pn5180_spi_transaction dev transaction b \<noteq> None"
proof -
  obtain r where "pn5180_wait_busy dev CONFIG_PN5180_BUSY_TIMEOUT_MS b = Some r"
    using pn5180_wait_busy_returns [of CONFIG_PN5180_BUSY_TIMEOUT_MS dev b]
    by (auto simp: CONFIG_PN5180_BUSY_TIMEOUT_MS_def)
  then show ?thesis
    by (cases r; cases "spi_device_transmit (snd r) transaction")
       (auto simp: pn5180_spi_transaction_def)
qed

lemma write_register_returns:
  "\<exists>err b'. pn5180_write_register_internal dev reg val b = Some (err, b')"
proof -
  obtain r where "pn5180_spi_transaction dev
       (Tx [PN5180_SPI_WRITE_MASK OR (reg AND 0x7F), ucast (drop_bit 24 val AND 0xFF),
            ucast (drop_bit 16 val AND 0xFF), ucast (drop_bit 8 val AND 0xFF),
            ucast (val AND 0xFF)]) b = Some r"
    using spi_transaction_returns by fastforce
  then show ?thesis
    by (cases r) (simp add: pn5180_write_register_internal_def Let_def)
qed

lemma rx_timeout_values:
  "rx_timeout_ms PN5180_PROTOCOL_ISO14443A = 2"
  "rx_timeout_ms PN5180_PROTOCOL_ISO14443B = 2"
  "rx_timeout_ms PN5180_PROTOCOL_ISO15693 = 5"
  "idx \<noteq> PN5180_PROTOCOL_ISO14443A \<Longrightarrow> idx \<noteq> PN5180_PROTOCOL_ISO14443B \<Longrightarrow>
   idx \<noteq> PN5180_PROTOCOL_ISO15693 \<Longrightarrow> rx_timeout_ms idx = 5"
  by (simp_all add: rx_timeout_ms_def PN5180_PROTOCOL_ISO14443A_def
      PN5180_PROTOCOL_ISO14443B_def PN5180_PROTOCOL_ISO15693_def
      CONFIG_PN5180_DETECT_TIMEOUT_14443A_MS_def CONFIG_PN5180_DETECT_TIMEOUT_14443B_MS_def
      CONFIG_PN5180_DETECT_TIMEOUT_15693_MS_def)

lemma ready_board_simps [simp]:
  "tick_ms (ready_board now reply) = now"
  "busy_pin (ready_board now reply) = (\<lambda>t. False)"
  "mutex_free (ready_board now reply)"
  "transmit_result (ready_board now reply) = ESP_OK"
  "miso (ready_board now reply) = reply"
  "mosi (ready_board now reply) = []"
  "callbacks (ready_board now reply) = []"
  by (simp_all add: ready_board_def)

lemma sample_dev_simps [simp]:
  "spi_device sample_dev = 1"
  "state sample_dev = DEVICE_STATE_TRANSMITTING"
  "state_timestamp sample_dev = 900"
  "current_protocol_index sample_dev = 0"
  "scanning_enabled sample_dev"
  "enabled_protocols sample_dev = 1"
  "last_scan_time sample_dev = 900"
  "log_callback sample_dev = 0"
  by (simp_all add: sample_dev_def)

lemma read_irq_sample:
  "pn5180_read_register_internal sample_dev PN5180_REG_IRQ_STATUS (ready_board now [0, 0, 0, v])
     = Some (PN5180_OK, ucast v, (ready_board now [])\<lparr>mosi := [[0x02]]\<rparr>)"
  by (simp add: pn5180_read_register_internal_def spi_transaction_ready PN5180_REG_IRQ_STATUS_def
      ready_board_def)

lemma transmitting_sample:
  "pn5180_state_transmitting sample_dev (ready_board now [0, 0, 0, v]) =
     (if (ucast v :: 32 word) AND PN5180_IRQ_STATUS_TX_DONE \<noteq> 0
      then Some (sample_dev\<lparr>state := DEVICE_STATE_RECEIVING, state_timestamp := now,
                   busy_wait_start_time := now + 2\<rparr>,
                 (ready_board now [])\<lparr>mosi := [[0x02], [0x82, 0, 0, 0, 0x02]]\<rparr>)
      else if (ucast v :: 32 word) AND PN5180_IRQ_STATUS_TX_ERROR \<noteq> 0
      then Some (sample_dev\<lparr>current_protocol_index := 1, state := DEVICE_STATE_SCANNING\<rparr>,
                 (ready_board now [])\<lparr>mosi := [[0x02], [0x82, 0, 0, 0, 0x10]]\<rparr>)
      else if 100 < now - 900
      then Some (sample_dev\<lparr>current_protocol_index := 1, state := DEVICE_STATE_SCANNING\<rparr>,
                 (ready_board now [])\<lparr>mosi := [[0x02]]\<rparr>)
      else Some (sample_dev, (ready_board now [])\<lparr>mosi := [[0x02]]\<rparr>))"
  unfolding pn5180_state_transmitting_def read_irq_sample option.case prod.case
  by (simp add: pn5180_write_register_internal_def spi_transaction_ready Let_def
      PN5180_REG_IRQ_STATUS_def PN5180_SPI_WRITE_MASK_def PN5180_IRQ_STATUS_TX_DONE_def
      PN5180_IRQ_STATUS_TX_ERROR_def pn5180_get_tick_ms_def rx_timeout_values
      rx_timeout_values(1) [unfolded PN5180_PROTOCOL_ISO14443A_def] ready_board_def)

section \<open>Lemmas about the protocol selection loop\<close>

lemma protocol_enabled_iff_bit:
  "protocol_enabled enabled idx \<longleftrightarrow> bit enabled (unat idx)"
proof -
  have "protocol_enabled enabled idx \<longleftrightarrow> bit (ucast enabled :: 32 word) (unat idx)"
    unfolding protocol_enabled_def by (simp add: bit_iff_and_push_bit_not_eq_0)
  also have "\<dots> \<longleftrightarrow> bit enabled (unat idx)"
    by (auto simp: bit_ucast_iff dest: bit_imp_le_length)
  finally show ?thesis .
qed

lemma next_protocol_index_values:
  "next_protocol_index 0 = 1" "next_protocol_index 1 = 2" "next_protocol_index 2 = 3"
  "next_protocol_index 3 = 4" "next_protocol_index 4 = 0"
  by (simp_all add: next_protocol_index_def PN5180_PROTOCOL_COUNT_def word_le_nat_alt)

lemma find_enabled_protocol_skip:
  "\<not> protocol_enabled enabled idx \<Longrightarrow>
   find_enabled_protocol enabled start idx =
     (if next_protocol_index idx = start then Some (False, start)
      else find_enabled_protocol enabled start (next_protocol_index idx))"
  by (subst find_enabled_protocol.simps) simp

lemma word_less_5_cases:
  fixes idx :: byte
  assumes "idx < 5"
  shows "idx = 0 \<or> idx = 1 \<or> idx = 2 \<or> idx = 3 \<or> idx = 4"
proof -
  have "unat idx < 5" using assms by (simp add: word_less_nat_alt)
  then have "unat idx = 0 \<or> unat idx = 1 \<or> unat idx = 2 \<or> unat idx = 3 \<or> unat idx = 4"
    by arith
  then show ?thesis by (elim disjE) (simp_all add: word_unat_eq_iff)
qed

lemma find_enabled_protocol_none_enabled:
  assumes nobits: "enabled AND 0x1F = 0" and idx: "start < PN5180_PROTOCOL_COUNT"
  shows "find_enabled_protocol enabled start start = Some (False, start)"
proof -
  have nb: "\<not> bit enabled k" if "k < 5" for k
  proof
    assume "bit enabled k"
    moreover have "bit (0x1F :: byte) k"
      using that by (auto simp: less_Suc_eq numeral_eq_Suc bit_numeral_simps elim!: less_SucE)
    ultimately have "bit (enabled AND 0x1F) k" by (simp add: bit_and_iff)
    then show False using nobits by simp
  qed
  have ne: "\<not> protocol_enabled enabled 0" "\<not> protocol_enabled enabled 1"
    "\<not> protocol_enabled enabled 2" "\<not> protocol_enabled enabled 3"
    "\<not> protocol_enabled enabled 4"
    using nb [of 0] nb [of 1] nb [of 2] nb [of 3] nb [of 4]
    by (simp_all add: protocol_enabled_iff_bit)
  from idx have "start = 0 \<or> start = 1 \<or> start = 2 \<or> start = 3 \<or> start = 4"
    by (intro word_less_5_cases) (simp add: PN5180_PROTOCOL_COUNT_def)
  then show ?thesis
    by (elim disjE) (simp_all add: find_enabled_protocol_skip ne next_protocol_index_values)
qed

lemma find_diverges_aux:
  assumes "find_enabled_protocol enabled start idx = Some r"
  shows "\<not> (enabled = 0 \<and> start = 5 \<and> idx \<in> {0, 1, 2, 3, 4, 5})"
proof (rule find_enabled_protocol.raw_induct
    [where P = "\<lambda>e s i y. \<not> (e = 0 \<and> s = 5 \<and> i \<in> {0, 1, 2, 3, 4, 5})", OF _ assms])
  fix find :: "byte \<Rightarrow> byte \<Rightarrow> byte \<Rightarrow> (bool \<times> byte) option"
  fix e s i :: byte and y :: "bool \<times> byte"
  assume IH: "\<And>e s i y. find e s i = Some y \<Longrightarrow> \<not> (e = 0 \<and> s = 5 \<and> i \<in> {0, 1, 2, 3, 4, 5})"
  assume step: "(if protocol_enabled e i then Some (True, i)
      else if next_protocol_index i = s then Some (False, next_protocol_index i)
           else find e s (next_protocol_index i)) = Some y"
  show "\<not> (e = 0 \<and> s = 5 \<and> i \<in> {0, 1, 2, 3, 4, 5})"
  proof
    assume a: "e = 0 \<and> s = 5 \<and> i \<in> {0, 1, 2, 3, 4, 5}"
    then have ne: "\<not> protocol_enabled e i" by (simp add: protocol_enabled_def)
    have nx: "next_protocol_index i \<in> {0, 1, 2, 3, 4}"
      using a by (auto simp: next_protocol_index_def PN5180_PROTOCOL_COUNT_def)
    then have "next_protocol_index i \<noteq> s" using a by auto
    with step ne have "find e s (next_protocol_index i) = Some y" by simp
    moreover have "next_protocol_index i \<in> {0, 1, 2, 3, 4, 5}" using nx by blast
    ultimately show False using IH a by blast
  qed
qed

lemma find_enabled_protocol_diverges: "find_enabled_protocol 0 5 5 = None"
proof (cases "find_enabled_protocol 0 5 5")
  case None then show ?thesis .
next
  case (Some r)
  from find_diverges_aux [OF this] show ?thesis by simp
qed

section \<open>Lemmas about the callback setters\<close>

lemma callback_user_data_run_setter:
  "callback_user_data (run_setter dev c) = setter_user_data c"
  by (cases c)
     (simp_all add: pn5180_set_card_callback_def pn5180_set_error_callback_def
        pn5180_set_log_callback_def)

lemma run_setters_snoc: "run_setters dev (cs @ [c]) = run_setter (run_setters dev cs) c"
  by (induction cs arbitrary: dev) simp_all

lemma callback_user_data_last:
  "calls \<noteq> [] \<Longrightarrow> callback_user_data (run_setters dev calls) = setter_user_data (last calls)"
proof (induction calls rule: rev_induct)
  case Nil
  then show ?case by simp
next
  case (snoc c cs)
  show ?case by (simp add: run_setters_snoc callback_user_data_run_setter)
qed

lemma stuck_board_simps [simp]:
  "busy_pin stuck_board = (\<lambda>t. True)" "mutex_free stuck_board" "tick_ms stuck_board = 1000"
  by (simp_all add: stuck_board_def ready_board_def)

section \<open>Claims about the driver\<close>

text \<open>
  Claim C5, as amended. Let the Transmitting step read the IRQ status successfully.
  \<^item> With \<open>TX_DONE\<close> set, the state becomes Receiving, the state timestamp is the
    current time and the receive deadline \<open>busy_wait_start_time\<close> is the current time
    plus 2 ms for ISO14443A, 2 ms for ISO14443B, 5 ms for ISO15693 and 5 ms for any
    other index.
  \<^item> With \<open>TX_DONE\<close> clear and \<open>TX_ERROR\<close> set, the state becomes Scanning and the
    protocol index is incremented by one.
  \<^item> With both clear, the same happens once \<^emph>\<open>more than\<close> 100 ms have passed since the
    state timestamp; up to and including 100 ms the handle is left as it is.
  The increment is the 8-bit \<open>++\<close>: it does not wrap at the protocol count.
\<close>

theorem transmitting_step_transitions:
  assumes rd: "pn5180_read_register_internal dev PN5180_REG_IRQ_STATUS b
                 = Some (PN5180_OK, irq_status, b1)"
  shows "(\<exists>dev' b'. pn5180_state_transmitting dev b = Some (dev', b') \<and>
      (irq_status AND PN5180_IRQ_STATUS_TX_DONE \<noteq> 0 \<longrightarrow>
         dev' = dev\<lparr>state := DEVICE_STATE_RECEIVING,
                    state_timestamp := tick_ms b',
                    busy_wait_start_time :=
                      tick_ms b' + rx_timeout_ms (current_protocol_index dev)\<rparr>) \<and>
      (irq_status AND PN5180_IRQ_STATUS_TX_DONE = 0 \<and>
       irq_status AND PN5180_IRQ_STATUS_TX_ERROR \<noteq> 0 \<longrightarrow>
         dev' = dev\<lparr>current_protocol_index := current_protocol_index dev + 1,
                    state := DEVICE_STATE_SCANNING\<rparr>) \<and>
      (irq_status AND PN5180_IRQ_STATUS_TX_DONE = 0 \<and>
       irq_status AND PN5180_IRQ_STATUS_TX_ERROR = 0 \<and>
       100 < tick_ms b1 - state_timestamp dev \<longrightarrow>
         dev' = dev\<lparr>current_protocol_index := current_protocol_index dev + 1,
                    state := DEVICE_STATE_SCANNING\<rparr> \<and> b' = b1) \<and>
      (irq_status AND PN5180_IRQ_STATUS_TX_DONE = 0 \<and>
       irq_status AND PN5180_IRQ_STATUS_TX_ERROR = 0 \<and>
       \<not> 100 < tick_ms b1 - state_timestamp dev \<longrightarrow>
         dev' = dev \<and> b' = b1))
    \<and> rx_timeout_ms PN5180_PROTOCOL_ISO14443A = 2
    \<and> rx_timeout_ms PN5180_PROTOCOL_ISO14443B = 2
    \<and> rx_timeout_ms PN5180_PROTOCOL_ISO15693 = 5
    \<and> (idx \<noteq> PN5180_PROTOCOL_ISO14443A \<and> idx \<noteq> PN5180_PROTOCOL_ISO14443B \<and>
       idx \<noteq> PN5180_PROTOCOL_ISO15693 \<longrightarrow> rx_timeout_ms idx = 5)"
proof -
  obtain e1 b2 where w1: "pn5180_write_register_internal dev PN5180_REG_IRQ_STATUS
      PN5180_IRQ_STATUS_TX_DONE b1 = Some (e1, b2)"
    using write_register_returns by blast
  obtain e2 b3 where w2: "pn5180_write_register_internal dev PN5180_REG_IRQ_STATUS
      PN5180_IRQ_STATUS_TX_ERROR b1 = Some (e2, b3)"
    using write_register_returns by blast
  have "\<exists>dev' b'. pn5180_state_transmitting dev b = Some (dev', b') \<and>
      (irq_status AND PN5180_IRQ_STATUS_TX_DONE \<noteq> 0 \<longrightarrow>
         dev' = dev\<lparr>state := DEVICE_STATE_RECEIVING,
                    state_timestamp := tick_ms b',
                    busy_wait_start_time :=
                      tick_ms b' + rx_timeout_ms (current_protocol_index dev)\<rparr>) \<and>
      (irq_status AND PN5180_IRQ_STATUS_TX_DONE = 0 \<and>
       irq_status AND PN5180_IRQ_STATUS_TX_ERROR \<noteq> 0 \<longrightarrow>
         dev' = dev\<lparr>current_protocol_index := current_protocol_index dev + 1,
                    state := DEVICE_STATE_SCANNING\<rparr>) \<and>
      (irq_status AND PN5180_IRQ_STATUS_TX_DONE = 0 \<and>
       irq_status AND PN5180_IRQ_STATUS_TX_ERROR = 0 \<and>
       100 < tick_ms b1 - state_timestamp dev \<longrightarrow>
         dev' = dev\<lparr>current_protocol_index := current_protocol_index dev + 1,
                    state := DEVICE_STATE_SCANNING\<rparr> \<and> b' = b1) \<and>
      (irq_status AND PN5180_IRQ_STATUS_TX_DONE = 0 \<and>
       irq_status AND PN5180_IRQ_STATUS_TX_ERROR = 0 \<and>
       \<not> 100 < tick_ms b1 - state_timestamp dev \<longrightarrow>
         dev' = dev \<and> b' = b1)"
    unfolding pn5180_state_transmitting_def rd option.case prod.case
    by (simp add: w1 w2 pn5180_get_tick_ms_def)
  then show ?thesis using rx_timeout_values by blast
qed

theorem transmitting_step_transitions_witness:
  "state (fst (the (pn5180_state_transmitting sample_dev (ready_board 1000 [0, 0, 0, 0x02]))))
     = DEVICE_STATE_RECEIVING
   \<and> busy_wait_start_time
        (fst (the (pn5180_state_transmitting sample_dev (ready_board 1000 [0, 0, 0, 0x02]))))
     = 1002
   \<and> state (fst (the (pn5180_state_transmitting sample_dev (ready_board 1000 [0, 0, 0, 0x10]))))
     = DEVICE_STATE_SCANNING
   \<and> current_protocol_index
        (fst (the (pn5180_state_transmitting sample_dev (ready_board 1000 [0, 0, 0, 0x10]))))
     = 1
   \<and> state (fst (the (pn5180_state_transmitting sample_dev (ready_board 1001 [0, 0, 0, 0]))))
     = DEVICE_STATE_SCANNING"
proof -
  have txd: "(ucast (2 :: byte) :: 32 word) AND PN5180_IRQ_STATUS_TX_DONE \<noteq> 0"
    by (simp add: PN5180_IRQ_STATUS_TX_DONE_def)
  from transmitting_step_transitions
      [OF read_irq_sample [where now = 1000 and v = 2], THEN conjunct1] txd
  obtain dev' b' where
    "pn5180_state_transmitting sample_dev (ready_board 1000 [0, 0, 0, 2]) = Some (dev', b')"
    and "dev' = sample_dev\<lparr>state := DEVICE_STATE_RECEIVING,
                    state_timestamp := tick_ms b',
                    busy_wait_start_time :=
                      tick_ms b' + rx_timeout_ms (current_protocol_index sample_dev)\<rparr>"
    by blast
  then have a: "state (fst (the (pn5180_state_transmitting sample_dev
                    (ready_board 1000 [0, 0, 0, 0x02])))) = DEVICE_STATE_RECEIVING"
    by simp
  have b: "busy_wait_start_time (fst (the (pn5180_state_transmitting sample_dev
                    (ready_board 1000 [0, 0, 0, 0x02])))) = 1002"
    by (simp add: transmitting_sample PN5180_IRQ_STATUS_TX_DONE_def)
  have c: "pn5180_state_transmitting sample_dev (ready_board 1000 [0, 0, 0, 0x10])
      = Some (sample_dev\<lparr>current_protocol_index := 1, state := DEVICE_STATE_SCANNING\<rparr>,
              (ready_board 1000 [])\<lparr>mosi := [[0x02], [0x82, 0, 0, 0, 0x10]]\<rparr>)"
    by (simp add: transmitting_sample PN5180_IRQ_STATUS_TX_DONE_def
        PN5180_IRQ_STATUS_TX_ERROR_def)
  have d: "pn5180_state_transmitting sample_dev (ready_board 1001 [0, 0, 0, 0])
      = Some (sample_dev\<lparr>current_protocol_index := 1, state := DEVICE_STATE_SCANNING\<rparr>,
              (ready_board 1001 [])\<lparr>mosi := [[0x02]]\<rparr>)"
    by (simp add: transmitting_sample PN5180_IRQ_STATUS_TX_DONE_def
        PN5180_IRQ_STATUS_TX_ERROR_def)
  show ?thesis using a b by (simp add: c d)
qed

text \<open>
  The claim as written fails at exactly 100 ms: Transmitting was entered at 900, the
  time is 1000, the IRQ status reads 0, and the step leaves the state Transmitting.
\<close>

theorem transmitting_stays_at_100_ms:
  "tick_ms (ready_board 1000 [0, 0, 0, 0]) - state_timestamp sample_dev = 100
   \<and> pn5180_read_register_internal sample_dev PN5180_REG_IRQ_STATUS (ready_board 1000 [0, 0, 0, 0])
       = Some (PN5180_OK, 0, (ready_board 1000 [])\<lparr>mosi := [[0x02]]\<rparr>)
   \<and> state (fst (the (pn5180_state_transmitting sample_dev (ready_board 1000 [0, 0, 0, 0]))))
       = DEVICE_STATE_TRANSMITTING"
  using read_irq_sample [where now = 1000 and v = 0]
  by (simp add: transmitting_sample PN5180_IRQ_STATUS_TX_DONE_def PN5180_IRQ_STATUS_TX_ERROR_def)

text \<open>
  Claim C6, as amended. With the BUSY line held high for ever, the bus lock free and an
  initialised handle: \<open>pn5180_wait_busy\<close> with the configured 100 ms returns
  \<open>PN5180_ERR_TIMEOUT\<close>, at the first poll at which more than 100 ms have passed (101 ms
  with 1 ms polls); \<open>pn5180_spi_transaction\<close> returns \<open>ESP_ERR_TIMEOUT\<close>; and the register
  write, the register read, the buffer write and the buffer read all return, with
  \<open>PN5180_ERR_SPI\<close> (not \<open>PN5180_ERR_TIMEOUT\<close>), after that one wait.
\<close>

theorem stuck_busy_bus_operations:
  assumes stuck: "\<forall>t. busy_pin b t"
    and lock: "mutex_free b"
    and init: "spi_device dev \<noteq> 0"
    and data: "data \<noteq> []" "length data \<le> CONFIG_PN5180_TX_BUFFER_SIZE"
  shows "pn5180_wait_busy dev CONFIG_PN5180_BUSY_TIMEOUT_MS b
           = Some (PN5180_ERR_TIMEOUT, after_busy_timeout dev b)
       \<and> tick_ms (after_busy_timeout dev b) - tick_ms b = 101
       \<and> pn5180_spi_transaction dev transaction b
           = Some (ESP_ERR_TIMEOUT, [], after_busy_timeout dev b)
       \<and> pn5180_write_register_internal dev reg val b
           = Some (PN5180_ERR_SPI, after_busy_timeout dev b)
       \<and> pn5180_read_register_internal dev reg b
           = Some (PN5180_ERR_SPI, 0, after_busy_timeout dev b)
       \<and> pn5180_write_buffer dev data b
           = Some (PN5180_ERR_SPI, dev, after_busy_timeout dev b)
       \<and> pn5180_read_buffer dev len b
           = Some (PN5180_ERR_SPI, [], dev, after_busy_timeout dev b)"
proof -
  have "tick_ms (after_busy_timeout dev b) - tick_ms b = 101"
    by (simp add: after_busy_timeout_def pn5180_log_internal_def)
  then show ?thesis
    using pn5180_wait_busy_stuck [OF stuck] spi_transaction_stuck [OF stuck lock]
      write_register_stuck [OF stuck lock init] read_register_stuck [OF stuck lock init]
      write_buffer_stuck [OF stuck lock init data] read_buffer_stuck [OF stuck lock init]
    by simp
qed

theorem stuck_busy_bus_operations_witness:
  "pn5180_wait_busy sample_dev CONFIG_PN5180_BUSY_TIMEOUT_MS stuck_board
     = Some (PN5180_ERR_TIMEOUT, stuck_board\<lparr>tick_ms := 1101\<rparr>)
   \<and> pn5180_write_buffer sample_dev [0x26] stuck_board
     = Some (PN5180_ERR_SPI, sample_dev, stuck_board\<lparr>tick_ms := 1101\<rparr>)"
  using stuck_busy_bus_operations [of stuck_board sample_dev "[0x26]"]
  by (simp add: after_busy_timeout_def pn5180_log_internal_def CONFIG_PN5180_TX_BUFFER_SIZE_def)

text \<open>
  The claim as written fails: on the stuck board a register write returns
  \<open>PN5180_ERR_SPI\<close>, which is not the Timeout error.
\<close>

theorem stuck_busy_write_register_is_spi_error:
  "pn5180_write_register_internal sample_dev PN5180_REG_IRQ_STATUS 0 stuck_board
     = Some (PN5180_ERR_SPI, stuck_board\<lparr>tick_ms := 1101\<rparr>)
   \<and> fst (the (pn5180_write_register_internal sample_dev PN5180_REG_IRQ_STATUS 0 stuck_board))
       \<noteq> PN5180_ERR_TIMEOUT"
  using write_register_stuck [of stuck_board sample_dev PN5180_REG_IRQ_STATUS 0]
  by (simp add: after_busy_timeout_def pn5180_log_internal_def)

text \<open>
  Claim C7. The start-scan command on a handle that is already scanning returns
  \<open>PN5180_OK\<close> and leaves the whole handle (mask, protocol index, state and every other
  field) and the board as they were; the stop-scan command on a handle that is not
  scanning returns \<open>PN5180_OK\<close> and leaves handle and board as they were, so nothing is
  written to the RF control register.
\<close>

theorem scan_commands_idempotent:
  "(scanning_enabled dev \<longrightarrow>
      pn5180_cmd_start_scan dev protocols b = Some (PN5180_OK, dev, b))
   \<and> (\<not> scanning_enabled dev' \<longrightarrow>
      pn5180_cmd_stop_scan dev' b' = Some (PN5180_OK, dev', b'))"
  by (simp add: pn5180_cmd_start_scan_def pn5180_cmd_stop_scan_def)

theorem scan_commands_idempotent_witness:
  "scanning_enabled sample_dev
   \<and> pn5180_cmd_start_scan sample_dev 0x05 (ready_board 1000 [])
       = Some (PN5180_OK, sample_dev, ready_board 1000 [])
   \<and> \<not> scanning_enabled (sample_dev\<lparr>state := DEVICE_STATE_IDLE, scanning_enabled := False\<rparr>)
   \<and> pn5180_cmd_stop_scan (sample_dev\<lparr>state := DEVICE_STATE_IDLE, scanning_enabled := False\<rparr>)
         (ready_board 1000 [])
       = Some (PN5180_OK, sample_dev\<lparr>state := DEVICE_STATE_IDLE, scanning_enabled := False\<rparr>,
               ready_board 1000 [])"
  using scan_commands_idempotent [of sample_dev 5 "ready_board 1000 []"
      "sample_dev\<lparr>state := DEVICE_STATE_IDLE, scanning_enabled := False\<rparr>"
      "ready_board 1000 []"]
  by simp

text \<open>
  Claim C8, as amended. In a Scanning step with scanning enabled, the scan-cycle delay
  elapsed, none of the five protocol bits (bits 0 to 4) set and a starting protocol index
  below \<open>PN5180_PROTOCOL_COUNT\<close>, the selection loop terminates without a protocol and
  the step only sets the state to Idle.
\<close>

theorem scanning_without_protocols_goes_idle:
  assumes en: "scanning_enabled dev"
    and nobits: "enabled_protocols dev AND 0x1F = 0"
    and idx: "current_protocol_index dev < PN5180_PROTOCOL_COUNT"
    and due: "\<not> tick_ms b - last_scan_time dev < CONFIG_PN5180_SCAN_CYCLE_DELAY_MS"
  shows "find_enabled_protocol (enabled_protocols dev) (current_protocol_index dev)
             (current_protocol_index dev) = Some (False, current_protocol_index dev)
       \<and> pn5180_state_scanning dev b = Some (dev\<lparr>state := DEVICE_STATE_IDLE\<rparr>, b)"
  using en due find_enabled_protocol_none_enabled [OF nobits idx]
  by (simp add: pn5180_state_scanning_def pn5180_get_tick_ms_def Let_def)

theorem scanning_without_protocols_goes_idle_witness:
  "pn5180_state_scanning
     (sample_dev\<lparr>state := DEVICE_STATE_SCANNING, enabled_protocols := 0x20,
                 current_protocol_index := 3\<rparr>)
     (ready_board 1000 [])
   = Some (sample_dev\<lparr>state := DEVICE_STATE_IDLE, enabled_protocols := 0x20,
                 current_protocol_index := 3\<rparr>, ready_board 1000 [])"
  using scanning_without_protocols_goes_idle [of "sample_dev\<lparr>state := DEVICE_STATE_SCANNING, enabled_protocols := 0x20,
                 current_protocol_index := 3\<rparr>" "ready_board 1000 []"]
  by (simp add: PN5180_PROTOCOL_COUNT_def CONFIG_PN5180_SCAN_CYCLE_DELAY_MS_def)

text \<open>
  The claim as written fails in two places. For a starting index of 5 with an empty mask
  the index goes 5, 0, 1, 2, 3, 4, 0, ... and never meets the start again, so the loop,
  and with it the step, does not return. And a step taken before the scan-cycle delay
  has elapsed (here at time 900, the time of the last scan) returns at once and stays in
  Scanning.
\<close>

theorem scanning_loop_diverges_from_index_5:
  "pn5180_state_scanning
     (sample_dev\<lparr>state := DEVICE_STATE_SCANNING, enabled_protocols := 0,
                 current_protocol_index := 5\<rparr>)
     (ready_board 1000 []) = None
   \<and> pn5180_state_scanning
       (sample_dev\<lparr>state := DEVICE_STATE_SCANNING, enabled_protocols := 0\<rparr>)
       (ready_board 900 [])
     = Some (sample_dev\<lparr>state := DEVICE_STATE_SCANNING, enabled_protocols := 0\<rparr>,
             ready_board 900 [])"
  by (simp add: pn5180_state_scanning_def pn5180_get_tick_ms_def Let_def
      CONFIG_PN5180_SCAN_CYCLE_DELAY_MS_def find_enabled_protocol_diverges)

text \<open>
  Claim C10. After any non-empty sequence of calls of the three callback setters, the one
  \<open>callback_user_data\<close> field holds the user data of the last call, whichever setter that
  was, and that is the value handed to the card callback and to the log callback.
\<close>

theorem callback_user_data_shared:
  assumes "calls \<noteq> []"
  shows "callback_user_data (run_setters dev calls) = setter_user_data (last calls)
       \<and> card_callback_call (run_setters dev calls) b =
           (if card_callback (run_setters dev calls) \<noteq> 0
            then b\<lparr>callbacks := callbacks b @
                   [CardCallback (card_callback (run_setters dev calls))
                      (setter_user_data (last calls))]\<rparr>
            else b)
       \<and> pn5180_log_internal (run_setters dev calls) 2 b =
           (if log_callback (run_setters dev calls) \<noteq> 0
            then b\<lparr>callbacks := callbacks b @
                   [LogCallback (log_callback (run_setters dev calls))
                      (setter_user_data (last calls))]\<rparr>
            else b)"
  using callback_user_data_last [OF assms, of dev]
  by (simp add: card_callback_call_def pn5180_log_internal_def CONFIG_PN5180_DEBUG_LEVEL_def)

theorem callback_user_data_shared_witness:
  "callbacks (card_callback_call
      (run_setters sample_dev [SetCard 11 100, SetError 12 200, SetLog 13 300])
      (ready_board 1000 []))
     = [CardCallback 11 300]
   \<and> callbacks (pn5180_log_internal
      (run_setters sample_dev [SetCard 11 100, SetError 12 200, SetLog 13 300]) 2
      (ready_board 1000 []))
     = [LogCallback 13 300]"
  using callback_user_data_shared [of "[SetCard 11 100, SetError 12 200, SetLog 13 300]" sample_dev "ready_board 1000 []"]
  by (simp add: pn5180_set_card_callback_def pn5180_set_error_callback_def
      pn5180_set_log_callback_def)

end
